theory Spec2Isabelle
  imports
    Complex_Main
    "HOL-Library.Sublist"
    "HOL-Library.AList"
    "HOL-Library.Char_ord"
    "HOL-Library.List_Lexorder"
    "HOL-Library.Product_Lexorder"
begin

section \<open>Python strings\<close>

text \<open>
  The extractor \<^verbatim>\<open>wechat_chat_extractor.py\<close> works on Python \<^verbatim>\<open>str\<close> values. They are
  modelled as \<^typ>\<open>string\<close>, each \<^typ>\<open>char\<close> standing for the code point of the same
  number, so the model covers text whose code points are below 256. On that range
  \<^verbatim>\<open>str.lower\<close> changes \<^verbatim>\<open>A-Z\<close> and the capital letters \<^verbatim>\<open>U+00C0-U+00DE\<close> (without the
  multiplication sign \<^verbatim>\<open>U+00D7\<close>), \<^verbatim>\<open>str.strip\<close> removes the characters for which
  \<^verbatim>\<open>str.isspace\<close> holds, and the regular expression class \<^verbatim>\<open>\d\<close> is \<^verbatim>\<open>0-9\<close>.
\<close>

definition lower_char :: "char \<Rightarrow> char" where
  "lower_char c =
     (let n = (of_char c :: nat) in
      if (65 \<le> n \<and> n \<le> 90) \<or> (192 \<le> n \<and> n \<le> 222 \<and> n \<noteq> 215)
      then char_of (n + 32) else c)"

definition lower :: "string \<Rightarrow> string" where
  "lower s = map lower_char s"

definition startswith :: "string \<Rightarrow> string \<Rightarrow> bool" where
  "startswith s p = (take (length p) s = p)"

definition endswith :: "string \<Rightarrow> string \<Rightarrow> bool" where
  "endswith s p = (length p \<le> length s \<and> drop (length s - length p) s = p)"

text \<open>\<^verbatim>\<open>sub in s\<close>: \<open>sub\<close> occurs in \<open>s\<close> as a contiguous substring.\<close>

fun str_in :: "string \<Rightarrow> string \<Rightarrow> bool" where
  "str_in sub [] = (sub = [])"
| "str_in sub (c # cs) = (startswith (c # cs) sub \<or> str_in sub cs)"

definition isdigit :: "char \<Rightarrow> bool" where
  "isdigit c = (let n = (of_char c :: nat) in 48 \<le> n \<and> n \<le> 57)"

definition isspace :: "char \<Rightarrow> bool" where
  "isspace c =
     (let n = (of_char c :: nat) in
      (9 \<le> n \<and> n \<le> 13) \<or> (28 \<le> n \<and> n \<le> 32) \<or> n = 133 \<or> n = 160)"

definition strip :: "string \<Rightarrow> string" where
  "strip s = rev (dropWhile isspace (rev (dropWhile isspace s)))"

text \<open>\<^verbatim>\<open>s.split(sep)\<close> for a separator of one character.\<close>

fun split_on :: "char \<Rightarrow> string \<Rightarrow> string list" where
  "split_on sep [] = [[]]"
| "split_on sep (c # cs) =
     (if c = sep then [] # split_on sep cs
      else (case split_on sep cs of
              [] \<Rightarrow> [[c]]
            | l # ls \<Rightarrow> (c # l) # ls))"

text \<open>
  \<^verbatim>\<open>re.match(pre + "([^q]+)q", line)\<close> where \<open>pre\<close> is literal text that ends with the
  quote character \<open>q\<close>: the match starts at the beginning of the line, group 1 is the longest
  run of characters other than \<open>q\<close> after \<open>pre\<close>, it must not be empty and the next
  character must be \<open>q\<close>. The result is group 1, or \<open>None\<close> when the line does not match.
\<close>

definition re_match_quoted :: "string \<Rightarrow> char \<Rightarrow> string \<Rightarrow> string option" where
  "re_match_quoted pre q line =
     (if startswith line pre then
        (let rest = drop (length pre) line;
             group1 = takeWhile (\<lambda>c. c \<noteq> q) rest;
             after = dropWhile (\<lambda>c. c \<noteq> q) rest
         in if group1 \<noteq> [] \<and> after \<noteq> [] then Some group1 else None)
      else None)"

text \<open>
  \<^verbatim>\<open>re.match(r'^chat\d+$', s)\<close>. In Python \<^verbatim>\<open>$\<close> matches at the end of the string and
  also just before a newline that ends the string.
\<close>

definition re_match_chat_digits :: "string \<Rightarrow> bool" where
  "re_match_chat_digits s =
     (startswith s ''chat'' \<and>
      (let rest = drop (length ''chat'') s;
           ds = takeWhile isdigit rest;
           tl = dropWhile isdigit rest
       in ds \<noteq> [] \<and> (tl = [] \<or> tl = [CHR 0x0A])))"

section \<open>Key store: \<^verbatim>\<open>extract_db_type\<close>, \<^verbatim>\<open>parse_keys\<close>, \<^verbatim>\<open>load_keys\<close>\<close>

text \<open>
  The dictionaries with the entries \<^verbatim>\<open>path\<close>, \<^verbatim>\<open>key\<close>, \<^verbatim>\<open>cipher_compatibility\<close> and
  \<^verbatim>\<open>type\<close> that \<^verbatim>\<open>parse_keys\<close> and \<^verbatim>\<open>load_keys\<close> build.
\<close>

record db_info =
  path :: string
  key :: string
  cipher_compatibility :: int
  type :: string

definition extract_db_type :: "string \<Rightarrow> string" where
  "extract_db_type filepath =
     (let parts = split_on (CHR ''/'') filepath in
      case filter (\<lambda>p. p \<noteq> []) (rev (butlast parts)) of
        [] \<Rightarrow> ''unknown''
      | p # _ \<Rightarrow> p)"

definition path_match :: "string \<Rightarrow> string option" where
  "path_match line = re_match_quoted (''sqlcipher db path: '' @ [CHR 0x27]) (CHR 0x27) line"

definition key_match :: "string \<Rightarrow> string option" where
  "key_match line = re_match_quoted (''PRAGMA key = '' @ [CHR 0x22]) (CHR 0x22) line"

text \<open>
  The loop of \<^verbatim>\<open>parse_keys\<close> over the lines, with the loop variables \<^verbatim>\<open>current_path\<close> and
  \<^verbatim>\<open>keys\<close> as arguments. (\<^verbatim>\<open>current_key\<close> is written and never read.)
\<close>

fun parse_lines :: "string list \<Rightarrow> string \<Rightarrow> db_info list \<Rightarrow> db_info list" where
  "parse_lines [] current_path keys = keys"
| "parse_lines (l # ls) current_path keys =
     (let line = strip l in
      if line = [] then parse_lines ls current_path keys
      else
        (case path_match line of
           Some p \<Rightarrow> parse_lines ls p keys
         | None \<Rightarrow>
            (case key_match line of
               Some k \<Rightarrow>
                 if current_path \<noteq> [] then
                   parse_lines ls []
                     (keys @ [\<lparr>path = current_path, key = k, cipher_compatibility = 3,
                               type = extract_db_type current_path\<rparr>])
                 else parse_lines ls current_path keys
             | None \<Rightarrow> parse_lines ls current_path keys)))"

definition parse_keys :: "string \<Rightarrow> db_info list" where
  "parse_keys content = parse_lines (split_on (CHR 0x0A) content) [] []"

section \<open>Table classifier: \<^verbatim>\<open>find_chat_tables\<close>\<close>

text \<open>The condition under which the loop of \<^verbatim>\<open>find_chat_tables\<close> keeps a table.\<close>

definition chat_table_pattern :: "string \<Rightarrow> bool" where
  "chat_table_pattern table =
     (let name_lower = lower table in
      startswith name_lower ''chat_'' \<or>
      name_lower = ''chat'' \<or>
      re_match_chat_digits name_lower \<or>
      startswith name_lower ''chatroom_'' \<or>
      startswith name_lower ''message_'' \<or>
      (str_in ''chat'' name_lower \<and> str_in ''room'' name_lower))"

definition find_chat_tables :: "string list \<Rightarrow> string list" where
  "find_chat_tables tables =
     sort_key (\<lambda>x. (\<not> startswith (lower x) ''chat_'', lower x))
       (filter chat_table_pattern tables)"

text \<open>
  The name predicate as the specification words it: the lowercase name starts with
  \<^verbatim>\<open>chat_\<close>, \<^verbatim>\<open>chatroom_\<close> or \<^verbatim>\<open>message_\<close>, equals \<^verbatim>\<open>chat\<close>, is \<^verbatim>\<open>chat\<close> followed only by
  digits, or contains both \<^verbatim>\<open>chat\<close> and \<^verbatim>\<open>room\<close>.
\<close>

definition claimed_chat_digits :: "string \<Rightarrow> bool" where
  "claimed_chat_digits n = (\<exists>ds. ds \<noteq> [] \<and> list_all isdigit ds \<and> n = ''chat'' @ ds)"

definition claimed_isChatTableName :: "string \<Rightarrow> bool" where
  "claimed_isChatTableName name =
     (let n = lower name in
      prefix ''chat_'' n \<or> prefix ''chatroom_'' n \<or> prefix ''message_'' n \<or>
      n = ''chat'' \<or> claimed_chat_digits n \<or>
      (sublist ''chat'' n \<and> sublist ''room'' n))"

section \<open>Values, numbers and dates\<close>

text \<open>
  The values the SQLite driver returns for a cell: \<^verbatim>\<open>None\<close>, \<^verbatim>\<open>int\<close>, \<^verbatim>\<open>float\<close>, \<^verbatim>\<open>str\<close> and
  \<^verbatim>\<open>bytes\<close>. A \<^verbatim>\<open>float\<close> is represented by the rational number its binary64 value denotes
  (SQLite stores no NaN; infinities are not modelled).
\<close>

datatype sqlval = VNull | VInt int | VReal rat | VText string | VBlob string

text \<open>
  Binary64 arithmetic, as far as \<^verbatim>\<open>_convert_timestamp\<close> needs it: \<open>to_double q\<close> is the
  binary64 value nearest to \<open>q\<close> (ties to even) for \<open>q\<close> in the normal range. It models the
  rounding of Python's true division \<^verbatim>\<open>timestamp / 1000\<close> and of the product inside
  \<^verbatim>\<open>datetime.fromtimestamp\<close>. A quotient too large for a binary64 makes Python raise, and so
  does the date that the finite value of the model denotes; both end in the same
  \<^verbatim>\<open>except\<close> clause.
\<close>

function bit_length :: "int \<Rightarrow> int" where
  "bit_length n = (if n \<le> 0 then 0 else 1 + bit_length (n div 2))"
  by pat_completeness auto
termination
  by (relation "measure nat") auto

definition pow2 :: "int \<Rightarrow> rat" where
  "pow2 e = (if 0 \<le> e then 2 ^ nat e else 1 / 2 ^ nat (- e))"

definition ilog2 :: "rat \<Rightarrow> int" where
  "ilog2 q = (if 1 \<le> q then bit_length \<lfloor>q\<rfloor> - 1 else - bit_length (\<lceil>1 / q\<rceil> - 1))"

definition round_half_even :: "rat \<Rightarrow> int" where
  "round_half_even q =
     (let f = \<lfloor>q\<rfloor>; r = q - of_int f in
      if r < 1 / 2 then f else if 1 / 2 < r then f + 1 else if even f then f else f + 1)"

definition to_double :: "rat \<Rightarrow> rat" where
  "to_double q =
     (if q = 0 then 0
      else (let e = ilog2 \<bar>q\<bar> - 52;
                m = round_half_even (\<bar>q\<bar> / pow2 e)
            in sgn q * of_int m * pow2 e))"

text \<open>
  The part of \<^verbatim>\<open>datetime\<close> that the extractor uses. \<open>civil_from_days\<close> converts a day number
  (days since 1970-01-01) to year, month and day of the proleptic Gregorian calendar.
\<close>

record datetime =
  year :: int
  month :: int
  day :: int
  hour :: int
  minute :: int
  second :: int
  microsecond :: int

definition civil_from_days :: "int \<Rightarrow> int \<times> int \<times> int" where
  "civil_from_days z0 =
     (let z = z0 + 719468;
          era = z div 146097;
          doe = z - era * 146097;
          yoe = (doe - doe div 1460 + doe div 36524 - doe div 146096) div 365;
          y = yoe + era * 400;
          doy = doe - (365 * yoe + yoe div 4 - yoe div 100);
          mp = (5 * doy + 2) div 153;
          d = doy - (153 * mp + 2) div 5 + 1;
          m = (if mp < 10 then mp + 3 else mp - 9)
      in (if m \<le> 2 then y + 1 else y, m, d))"

text \<open>
  What the run takes from its environment: the local time zone (\<open>utcoffset env s\<close> is the
  offset in seconds of local time from UTC at the epoch second \<open>s\<close>),
  \<^verbatim>\<open>datetime.fromisoformat(s).isoformat()\<close> as one function of the text (\<open>None\<close> when the text
  does not parse), UTF-8 decoding of \<^verbatim>\<open>bytes\<close> (\<open>None\<close> for \<^verbatim>\<open>UnicodeDecodeError\<close>), and the
  clock: \<open>now_isoformat env p t n\<close> is \<^verbatim>\<open>datetime.now().isoformat()\<close> at the moment row
  number \<open>n\<close> of table \<open>t\<close> of the database at \<open>p\<close> is turned into a record, and
  \<open>now_at_save\<close> is its value when \<^verbatim>\<open>save_to_json\<close> runs.
\<close>

record pyenv =
  utcoffset :: "int \<Rightarrow> int"
  fromisoformat :: "string \<Rightarrow> string option"
  utf8_decode :: "string \<Rightarrow> string option"
  now_isoformat :: "string \<Rightarrow> string \<Rightarrow> nat \<Rightarrow> string"
  now_at_save :: string

text \<open>
  \<^verbatim>\<open>datetime.fromtimestamp\<close> gives the local date and time of an instant and raises unless the
  year is in \<^verbatim>\<open>1..9999\<close>; raising is the result \<open>None\<close>. For a \<^verbatim>\<open>float\<close> argument the fraction
  is rounded half-even to microseconds.
\<close>

definition localtime :: "pyenv \<Rightarrow> int \<Rightarrow> int \<Rightarrow> datetime option" where
  "localtime env s us =
     (let l = s + utcoffset env s;
          (y, m, d) = civil_from_days (l div 86400);
          sod = l mod 86400
      in if 1 \<le> y \<and> y \<le> 9999
         then Some \<lparr>year = y, month = m, day = d, hour = sod div 3600,
                     minute = sod mod 3600 div 60, second = sod mod 60, microsecond = us\<rparr>
         else None)"

definition fromtimestamp_int :: "pyenv \<Rightarrow> int \<Rightarrow> datetime option" where
  "fromtimestamp_int env t = localtime env t 0"

definition fromtimestamp_float :: "pyenv \<Rightarrow> rat \<Rightarrow> datetime option" where
  "fromtimestamp_float env x =
     (let intpart = (if 0 \<le> x then \<lfloor>x\<rfloor> else \<lceil>x\<rceil>);
          floatpart = round_half_even (to_double ((x - of_int intpart) * 1000000))
      in if 1000000 \<le> floatpart then localtime env (intpart + 1) (floatpart - 1000000)
         else if floatpart < 0 then localtime env (intpart - 1) (floatpart + 1000000)
         else localtime env intpart floatpart)"

fun zfill :: "nat \<Rightarrow> nat \<Rightarrow> string" where
  "zfill 0 n = []"
| "zfill (Suc w) n = zfill w (n div 10) @ [char_of (48 + n mod 10)]"

definition isoformat :: "datetime \<Rightarrow> string" where
  "isoformat dt =
     zfill 4 (nat (year dt)) @ ''-'' @ zfill 2 (nat (month dt)) @ ''-'' @ zfill 2 (nat (day dt)) @
     ''T'' @ zfill 2 (nat (hour dt)) @ '':'' @ zfill 2 (nat (minute dt)) @ '':'' @
     zfill 2 (nat (second dt)) @
     (if microsecond dt \<noteq> 0 then ''.'' @ zfill 6 (nat (microsecond dt)) else [])"

text \<open>
  \<^verbatim>\<open>_convert_timestamp\<close>. The result \<open>None\<close> is Python's \<^verbatim>\<open>None\<close>; every exception inside ends
  in \<^verbatim>\<open>except Exception: pass\<close> and the final \<^verbatim>\<open>return None\<close>.
\<close>

definition convert_timestamp :: "pyenv \<Rightarrow> sqlval \<Rightarrow> string option" where
  "convert_timestamp env timestamp =
     (case timestamp of
        VInt t \<Rightarrow>
          if 1000000000000 < t then
            map_option isoformat (fromtimestamp_float env (to_double (of_int t / 1000)))
          else if 1000000000 < t then map_option isoformat (fromtimestamp_int env t)
          else None
      | VReal x \<Rightarrow>
          if 1000000000000 < x then
            map_option isoformat (fromtimestamp_float env (to_double (x / 1000)))
          else if 1000000000 < x then map_option isoformat (fromtimestamp_float env x)
          else None
      | VText s \<Rightarrow> (case fromisoformat env s of Some normalized \<Rightarrow> Some normalized | None \<Rightarrow> Some s)
      | _ \<Rightarrow> None)"


section \<open>Database gateway\<close>

text \<open>
  The SQLCipher library is outside the repository. A database file is modelled by whether
  \<^verbatim>\<open>sqlite.connect\<close> can open it, by the key texts and compatibility setting under which the
  probe query on \<^verbatim>\<open>sqlite_master\<close> succeeds, and by its tables (name, column names, rows) in
  the order of \<^verbatim>\<open>sqlite_master\<close>. Table and column names are taken to be plain SQL
  identifiers, so that the statements the extractor builds by string interpolation parse.
  An open connection is represented by the tables it gives access to.
\<close>

datatype exn = FileError | UnboundLocalError | OperationalError | WriteError

type_synonym row = "sqlval list"

record sql_table =
  t_columns :: "string list"
  t_rows :: "row list"

type_synonym connection = "(string \<times> sql_table) list"

record dbfile =
  db_openable :: bool
  db_accepts :: "string \<Rightarrow> int \<Rightarrow> bool"
  db_tables :: connection

type_synonym world = "string \<Rightarrow> dbfile"

text \<open>
  \<^verbatim>\<open>connect_database\<close>: the list \<^verbatim>\<open>key_formats\<close> and the loop over it. In the \<^verbatim>\<open>except\<close>
  clause the variable \<^verbatim>\<open>conn\<close> is read; it is bound only once \<^verbatim>\<open>sqlite.connect\<close> has returned
  in this or an earlier iteration (\<open>conn_bound\<close>), otherwise reading it raises
  \<^verbatim>\<open>UnboundLocalError\<close> inside the handler, which leaves \<^verbatim>\<open>connect_database\<close>.
\<close>

definition key_formats :: "string \<Rightarrow> string list" where
  "key_formats original_key =
     (if startswith original_key (''x'' @ [CHR 0x27]) \<and> endswith original_key [CHR 0x27] then
        (let hex_key = drop 2 (butlast original_key) in
         [''x'' @ [CHR 0x27] @ hex_key @ [CHR 0x27],
          original_key,
          [CHR 0x22] @ original_key @ [CHR 0x22],
          hex_key])
      else
        [original_key,
         [CHR 0x22] @ original_key @ [CHR 0x22],
         ''x'' @ [CHR 0x27] @ original_key @ [CHR 0x27]])"

fun try_key_formats :: "dbfile \<Rightarrow> int \<Rightarrow> bool \<Rightarrow> string list \<Rightarrow> exn + connection option" where
  "try_key_formats f cc conn_bound [] = Inr None"
| "try_key_formats f cc conn_bound (key_format # rest) =
     (if \<not> db_openable f then
        (if conn_bound then try_key_formats f cc conn_bound rest
         else Inl UnboundLocalError)
      else if db_accepts f key_format cc then Inr (Some (db_tables f))
      else try_key_formats f cc True rest)"

definition connect_database :: "world \<Rightarrow> db_info \<Rightarrow> exn + connection option" where
  "connect_database w db =
     try_key_formats (w (path db)) (cipher_compatibility db) False (key_formats (key db))"

definition get_table_names :: "connection \<Rightarrow> string list" where
  "get_table_names conn = map fst conn"

section \<open>Table validation and extraction\<close>

text \<open>
  \<^verbatim>\<open>validate_chat_table\<close>. For a table that does not exist \<^verbatim>\<open>PRAGMA table_info\<close> yields no
  rows and \<^verbatim>\<open>SELECT COUNT(*)\<close> raises, which the \<^verbatim>\<open>except\<close> clause turns into
  \<^verbatim>\<open>(False, [])\<close>.
\<close>

definition validate_chat_table :: "connection \<Rightarrow> string \<Rightarrow> bool \<times> string list" where
  "validate_chat_table conn table_name =
     (case map_of conn table_name of
        None \<Rightarrow> (False, [])
      | Some t \<Rightarrow>
          (let columns = map lower (t_columns t);
               row_count = length (t_rows t)
           in if row_count = 0 then (False, columns)
              else
                (let has_msg_id = list_ex (\<lambda>col. col \<in> set columns)
                                    [''meslocalid'', ''messvrid'', ''localid''];
                     has_time = list_ex (\<lambda>col. str_in ''time'' col) columns;
                     has_content = list_ex (\<lambda>col. list_ex (\<lambda>keyword. str_in keyword col)
                                      [''content'', ''message'', ''msg'']) columns
                 in (has_msg_id \<or> has_time \<or> has_content, columns))))"

fun find_column :: "string list \<Rightarrow> string list \<Rightarrow> string option" where
  "find_column columns [] = None"
| "find_column columns (candidate # candidates) =
     (case find (\<lambda>column. str_in (lower candidate) (lower column)) columns of
        Some column \<Rightarrow> Some column
      | None \<Rightarrow> find_column columns candidates)"

text \<open>
  A record of the output is a Python dictionary; insertion order and overwriting are those
  of \<open>AList.update\<close>.
\<close>

type_synonym message = "(string \<times> sqlval) list"

text \<open>
  \<^verbatim>\<open>if sender_col: select_fields.append(sender_col); field_mapping['sender'] = sender_col\<close>
  and its four siblings, then the loop that appends the remaining columns.
\<close>

definition add_role ::
  "string \<Rightarrow> string option \<Rightarrow> string list \<times> (string \<rightharpoonup> string) \<Rightarrow> string list \<times> (string \<rightharpoonup> string)" where
  "add_role role col acc =
     (case col of
        None \<Rightarrow> acc
      | Some c \<Rightarrow> if c = [] then acc else (fst acc @ [c], (snd acc)(role \<mapsto> c)))"

definition add_other_columns :: "string list \<Rightarrow> string list \<Rightarrow> string list" where
  "add_other_columns columns select_fields =
     foldl (\<lambda>sf col. if col \<notin> set sf \<and> col \<notin> set [''rowid''] then sf @ [col] else sf)
       select_fields columns"

definition hex_digit :: "nat \<Rightarrow> char" where
  "hex_digit n = ''0123456789abcdef'' ! n"

definition hex :: "string \<Rightarrow> string" where
  "hex b = concat (map (\<lambda>c. [hex_digit (of_char c div 16), hex_digit (of_char c mod 16)]) b)"

definition decode_bytes :: "pyenv \<Rightarrow> sqlval \<Rightarrow> sqlval" where
  "decode_bytes env v =
     (case v of
        VBlob b \<Rightarrow> (case utf8_decode env b of Some s \<Rightarrow> VText s | None \<Rightarrow> VText (hex b))
      | _ \<Rightarrow> v)"

definition truthy :: "sqlval \<Rightarrow> bool" where
  "truthy v =
     (case v of
        VNull \<Rightarrow> False
      | VInt i \<Rightarrow> i \<noteq> 0
      | VReal x \<Rightarrow> x \<noteq> 0
      | VText s \<Rightarrow> s \<noteq> []
      | VBlob b \<Rightarrow> b \<noteq> [])"

definition opt_text :: "string option \<Rightarrow> sqlval" where
  "opt_text r = (case r of None \<Rightarrow> VNull | Some s \<Rightarrow> VText s)"

text \<open>The body of the loop over \<^verbatim>\<open>enumerate(select_fields)\<close>, and the record of one row.\<close>

definition set_field ::
  "pyenv \<Rightarrow> (string \<rightharpoonup> string) \<Rightarrow> row \<Rightarrow> message \<Rightarrow> nat \<times> string \<Rightarrow> message" where
  "set_field env field_mapping row message i_field =
     (let i = fst i_field;
          field = snd i_field;
          v = decode_bytes env (if i < length row then row ! i else VNull)
      in if field_mapping ''time'' = Some field \<and> truthy v then
           AList.update ''timestamp_raw'' v
             (AList.update ''timestamp'' (opt_text (convert_timestamp env v)) message)
         else if field_mapping ''sender'' = Some field then AList.update ''sender'' v message
         else if field_mapping ''content'' = Some field then AList.update ''content'' v message
         else if field_mapping ''msgid'' = Some field then AList.update ''message_id'' v message
         else if field_mapping ''type'' = Some field then AList.update ''message_type'' v message
         else AList.update field v message)"

definition build_message ::
  "pyenv \<Rightarrow> db_info \<Rightarrow> string \<Rightarrow> string list \<Rightarrow> (string \<rightharpoonup> string) \<Rightarrow> nat \<times> row \<Rightarrow> message" where
  "build_message env db table_name select_fields field_mapping n_row =
     foldl (set_field env field_mapping (snd n_row))
       [(''database_path'', VText (path db)),
        (''database_type'', VText (type db)),
        (''table_name'', VText table_name),
        (''extracted_at'', VText (now_isoformat env (path db) table_name (fst n_row)))]
       (enumerate 0 select_fields)"

text \<open>
  \<^verbatim>\<open>SELECT fields FROM table LIMIT limit OFFSET offset\<close>. SQLite resolves a column name
  without regard to the case of ASCII letters; a name that resolves to no column, or a
  missing table, makes the statement raise.
\<close>

definition ascii_lower :: "string \<Rightarrow> string" where
  "ascii_lower s =
     map (\<lambda>c. let n = (of_char c :: nat) in if 65 \<le> n \<and> n \<le> 90 then char_of (n + 32) else c) s"

fun column_index :: "string list \<Rightarrow> string \<Rightarrow> nat option" where
  "column_index [] field = None"
| "column_index (c # cs) field =
     (if ascii_lower c = ascii_lower field then Some 0
      else map_option Suc (column_index cs field))"

definition cell :: "row \<Rightarrow> nat \<Rightarrow> sqlval" where
  "cell r i = (if i < length r then r ! i else VNull)"

definition execute_select ::
  "connection \<Rightarrow> string \<Rightarrow> string list \<Rightarrow> nat \<Rightarrow> nat \<Rightarrow> exn + row list" where
  "execute_select conn table_name select_fields limit offset =
     (case map_of conn table_name of
        None \<Rightarrow> Inl OperationalError
      | Some t \<Rightarrow>
          (case those (map (column_index (t_columns t)) select_fields) of
             None \<Rightarrow> Inl OperationalError
           | Some idx \<Rightarrow>
               Inr (map (\<lambda>r. map (cell r) idx) (take limit (drop offset (t_rows t))))))"

text \<open>
  The \<^verbatim>\<open>while True\<close> loop of \<^verbatim>\<open>extract_chat_data\<close> with \<^verbatim>\<open>batch_size = 1000\<close>. An exception
  ends the function with the records collected so far.
\<close>

function fetch_batches ::
  "pyenv \<Rightarrow> connection \<Rightarrow> db_info \<Rightarrow> string \<Rightarrow> string list \<Rightarrow> (string \<rightharpoonup> string) \<Rightarrow>
   nat \<Rightarrow> message list \<Rightarrow> message list" where
  "fetch_batches env conn db table_name select_fields field_mapping offset messages =
     (case execute_select conn table_name select_fields 1000 offset of
        Inl e \<Rightarrow> messages
      | Inr rows \<Rightarrow>
          if rows = [] then messages
          else fetch_batches env conn db table_name select_fields field_mapping (offset + 1000)
                 (messages @
                  map (build_message env db table_name select_fields field_mapping)
                    (enumerate offset rows)))"
  by pat_completeness auto
termination
proof (relation "measure (\<lambda>(env, conn, db, table_name, select_fields, field_mapping, offset, messages).
    (case map_of conn table_name of None \<Rightarrow> 0 | Some t \<Rightarrow> length (t_rows t)) - offset)")
  show "wf (measure (\<lambda>(env, conn, db, table_name, select_fields, field_mapping, offset, messages).
    (case map_of conn table_name of None \<Rightarrow> 0 | Some t \<Rightarrow> length (t_rows t)) - offset))"
    by simp
next
  fix env :: pyenv and conn :: connection and db :: db_info and table_name :: string
    and select_fields :: "string list" and field_mapping :: "string \<rightharpoonup> string"
    and offset :: nat and messages :: "message list" and rows :: "row list"
  assume e: "execute_select conn table_name select_fields 1000 offset = Inr rows" and ne: "rows \<noteq> []"
  from e obtain t where t: "map_of conn table_name = Some t"
    by (auto simp: execute_select_def split: option.splits)
  from e ne t have "take 1000 (drop offset (t_rows t)) \<noteq> []"
    by (auto simp: execute_select_def split: option.splits)
  then have "offset < length (t_rows t)" by auto
  with t show "((env, conn, db, table_name, select_fields, field_mapping, offset + 1000,
      messages @ map (build_message env db table_name select_fields field_mapping) (enumerate offset rows)),
     (env, conn, db, table_name, select_fields, field_mapping, offset, messages))
    \<in> measure (\<lambda>(env, conn, db, table_name, select_fields, field_mapping, offset, messages).
        (case map_of conn table_name of None \<Rightarrow> 0 | Some t \<Rightarrow> length (t_rows t)) - offset)"
    by simp
qed

definition extract_chat_data ::
  "pyenv \<Rightarrow> connection \<Rightarrow> string \<Rightarrow> string list \<Rightarrow> db_info \<Rightarrow> message list" where
  "extract_chat_data env conn table_name columns db =
     (let sender_col = find_column columns [''meslocalid'', ''messvrid'', ''localid''];
          time_col = find_column columns [''msgcreatetime'', ''createtime'', ''timestamp'', ''time''];
          content_col = find_column columns [''msgcontent'', ''content'', ''message'', ''msg''];
          msgid_col = find_column columns [''meslocalid'', ''messvrid'', ''msgid'', ''id'', ''localid''];
          type_col = find_column columns [''messagetype'', ''msgtype'', ''type''];
          roles = add_role ''type'' type_col
                    (add_role ''msgid'' msgid_col
                      (add_role ''content'' content_col
                        (add_role ''time'' time_col
                          (add_role ''sender'' sender_col ([], Map.empty)))));
          select_fields = add_other_columns columns (fst roles);
          field_mapping = snd roles
      in if select_fields = [] then []
         else fetch_batches env conn db table_name select_fields field_mapping 0 [])"



section \<open>Orchestration: \<^verbatim>\<open>extract_all_chats\<close>, \<^verbatim>\<open>save_to_json\<close>, \<^verbatim>\<open>run\<close>, \<^verbatim>\<open>main\<close>\<close>

text \<open>The loop over \<^verbatim>\<open>chat_tables\<close> in \<^verbatim>\<open>extract_all_chats\<close>.\<close>

fun process_tables ::
  "pyenv \<Rightarrow> connection \<Rightarrow> db_info \<Rightarrow> string list \<Rightarrow> message list \<Rightarrow> message list" where
  "process_tables env conn db [] chat_data = chat_data"
| "process_tables env conn db (table_name # chat_tables) chat_data =
     (let is_valid = fst (validate_chat_table conn table_name);
          columns = snd (validate_chat_table conn table_name)
      in if \<not> is_valid then process_tables env conn db chat_tables chat_data
         else process_tables env conn db chat_tables
                (chat_data @ extract_chat_data env conn table_name columns db))"

text \<open>
  The log lines that the properties below speak about: the debug line with the path that
  \<^verbatim>\<open>connect_database\<close> writes when it is called, the error and the warning of \<^verbatim>\<open>run\<close> for
  an empty database list and an empty result, the error \<^verbatim>\<open>run\<close> logs before it re-raises,
  the line about the saved file, and the final lines of \<^verbatim>\<open>main\<close>.
\<close>

datatype log_level = DEBUG | INFO | WARNING | ERROR

datatype log_event =
    ConnectAttempt string
  | NoValidDatabase
  | NoChatRecords
  | RunFailed
  | SavedTo string
  | ExtractionDone
  | ExtractionFailed
  | KeysFileMissing

fun level :: "log_event \<Rightarrow> log_level" where
  "level (ConnectAttempt p) = DEBUG"
| "level NoValidDatabase = ERROR"
| "level NoChatRecords = WARNING"
| "level RunFailed = ERROR"
| "level (SavedTo p) = INFO"
| "level ExtractionDone = INFO"
| "level ExtractionFailed = ERROR"
| "level KeysFileMissing = ERROR"

text \<open>The attributes of a \<^verbatim>\<open>WeChatChatExtractor\<close> object, and the log it has written.\<close>

record extractor =
  keys_file_path :: string
  databases :: "db_info list"
  chat_data :: "message list"
  logged :: "log_event list"

definition new_extractor :: "string \<Rightarrow> extractor" where
  "new_extractor keys_file = \<lparr>keys_file_path = keys_file, databases = [], chat_data = [], logged = []\<rparr>"

text \<open>
  The file system: reading a text file (\<open>None\<close> when \<^verbatim>\<open>open\<close> or \<^verbatim>\<open>read\<close> raises),
  \<^verbatim>\<open>os.path.exists\<close>, and whether the output file can be written.
\<close>

record filesystem =
  read_text :: "string \<Rightarrow> string option"
  path_exists :: "string \<Rightarrow> bool"
  writable :: "string \<Rightarrow> bool"

definition load_keys :: "filesystem \<Rightarrow> extractor \<Rightarrow> exn + extractor" where
  "load_keys fs self =
     (case read_text fs (keys_file_path self) of
        None \<Rightarrow> Inl FileError
      | Some content \<Rightarrow>
          Inr (self\<lparr>databases := databases self @
                 map (\<lambda>key_info. \<lparr>path = path key_info, key = key key_info,
                                   cipher_compatibility = cipher_compatibility key_info,
                                   type = type key_info\<rparr>)
                   (filter (\<lambda>key_info. path_exists fs (path key_info)) (parse_keys content))\<rparr>))"

text \<open>
  The loop of \<^verbatim>\<open>extract_all_chats\<close> over \<^verbatim>\<open>message_dbs + other_dbs\<close>. An exception leaves the
  loop; the object keeps the records it has collected. The counters \<^verbatim>\<open>total_messages\<close> and
  \<^verbatim>\<open>processed_dbs\<close> are only logged and are left out.
\<close>

fun process_databases ::
  "pyenv \<Rightarrow> world \<Rightarrow> db_info list \<Rightarrow> extractor \<Rightarrow> exn option \<times> extractor" where
  "process_databases env w [] self = (None, self)"
| "process_databases env w (db # dbs) self =
     (let self1 = self\<lparr>logged := logged self @ [ConnectAttempt (path db)]\<rparr> in
      case connect_database w db of
        Inl e \<Rightarrow> (Some e, self1)
      | Inr None \<Rightarrow> process_databases env w dbs self1
      | Inr (Some conn) \<Rightarrow>
          (let chat_tables = find_chat_tables (get_table_names conn) in
           if chat_tables = [] then process_databases env w dbs self1
           else process_databases env w dbs
                  (self1\<lparr>chat_data := process_tables env conn db chat_tables (chat_data self1)\<rparr>)))"

definition extract_all_chats :: "pyenv \<Rightarrow> world \<Rightarrow> extractor \<Rightarrow> exn option \<times> extractor" where
  "extract_all_chats env w self =
     (let message_dbs = filter (\<lambda>db. type db = ''Message'') (databases self);
          other_dbs = filter (\<lambda>db. type db \<noteq> ''Message'') (databases self)
      in process_databases env w (message_dbs @ other_dbs) self)"

record output_data =
  extracted_at :: string
  total_messages :: nat
  total_databases :: nat
  source_keys_file :: string
  messages :: "message list"

definition save_to_json :: "pyenv \<Rightarrow> filesystem \<Rightarrow> string \<Rightarrow> extractor \<Rightarrow> exn + output_data" where
  "save_to_json env fs output_path self =
     (if writable fs output_path then
        Inr \<lparr>extracted_at = now_at_save env,
             total_messages = length (chat_data self),
             total_databases = length (databases self),
             source_keys_file = keys_file_path self,
             messages = chat_data self\<rparr>
      else Inl WriteError)"

record run_result =
  raised :: "exn option"
  written :: "output_data option"
  final :: extractor

definition add_log :: "log_event \<Rightarrow> extractor \<Rightarrow> extractor" where
  "add_log ev self = self\<lparr>logged := logged self @ [ev]\<rparr>"

definition run :: "pyenv \<Rightarrow> filesystem \<Rightarrow> world \<Rightarrow> string \<Rightarrow> extractor \<Rightarrow> run_result" where
  "run env fs w output_path self =
     (case load_keys fs self of
        Inl e \<Rightarrow> \<lparr>raised = Some e, written = None, final = add_log RunFailed self\<rparr>
      | Inr self1 \<Rightarrow>
          if databases self1 = [] then
            \<lparr>raised = None, written = None, final = add_log NoValidDatabase self1\<rparr>
          else
            (case extract_all_chats env w self1 of
               (Some e, self2) \<Rightarrow>
                 \<lparr>raised = Some e, written = None, final = add_log RunFailed self2\<rparr>
             | (None, self2) \<Rightarrow>
                 if chat_data self2 = [] then
                   \<lparr>raised = None, written = None, final = add_log NoChatRecords self2\<rparr>
                 else
                   (case save_to_json env fs output_path self2 of
                      Inl e \<Rightarrow>
                        \<lparr>raised = Some e, written = None, final = add_log RunFailed self2\<rparr>
                    | Inr out \<Rightarrow>
                        \<lparr>raised = None, written = Some out,
                         final = add_log (SavedTo output_path) self2\<rparr>)))"

text \<open>
  \<^verbatim>\<open>main\<close> without the options \<^verbatim>\<open>--test-info\<close>, \<^verbatim>\<open>--show-tables\<close> and \<^verbatim>\<open>--csv-tables\<close>. The
  process ends with status 1 through \<^verbatim>\<open>sys.exit(1)\<close> and with status 0 when \<^verbatim>\<open>main\<close>
  returns.
\<close>

record main_result =
  exit_code :: int
  output_file :: "output_data option"
  main_log :: "log_event list"

definition main ::
  "pyenv \<Rightarrow> filesystem \<Rightarrow> world \<Rightarrow> string \<Rightarrow> string \<Rightarrow> main_result" where
  "main env fs w keys_file output_path =
     (if \<not> path_exists fs keys_file then
        \<lparr>exit_code = 1, output_file = None, main_log = [KeysFileMissing]\<rparr>
      else
        (let r = run env fs w output_path (new_extractor keys_file) in
         case raised r of
           Some e \<Rightarrow>
             \<lparr>exit_code = 1, output_file = written r,
              main_log = logged (final r) @ [ExtractionFailed]\<rparr>
         | None \<Rightarrow>
             \<lparr>exit_code = 0, output_file = written r,
              main_log = logged (final r) @ [ExtractionDone]\<rparr>))"


section \<open>Notions used to state the properties\<close>

text \<open>
  The kind of a line of the key file, as the branches of the loop of \<^verbatim>\<open>parse_keys\<close> tell
  them apart, and the value of \<^verbatim>\<open>current_path\<close> after a list of lines.
\<close>

datatype line_kind = Blank | PathLine string | KeyLine string | Other

definition classify :: "string \<Rightarrow> line_kind" where
  "classify l =
     (let line = strip l in
      if line = [] then Blank
      else (case path_match line of
              Some p \<Rightarrow> PathLine p
            | None \<Rightarrow> (case key_match line of Some k \<Rightarrow> KeyLine k | None \<Rightarrow> Other)))"

definition is_path_line :: "string \<Rightarrow> bool" where
  "is_path_line l = (case classify l of PathLine p \<Rightarrow> True | _ \<Rightarrow> False)"

definition is_key_line :: "string \<Rightarrow> bool" where
  "is_key_line l = (case classify l of KeyLine k \<Rightarrow> True | _ \<Rightarrow> False)"

definition mk_info :: "string \<Rightarrow> string \<Rightarrow> db_info" where
  "mk_info p k = \<lparr>path = p, key = k, cipher_compatibility = 3, type = extract_db_type p\<rparr>"

fun pending :: "string list \<Rightarrow> string \<Rightarrow> string" where
  "pending [] cp = cp"
| "pending (l # ls) cp =
     (case classify l of PathLine p \<Rightarrow> pending ls p | KeyLine k \<Rightarrow> pending ls [] | _ \<Rightarrow> pending ls cp)"

text \<open>
  A descriptor is a well-formed pair of the lines \<open>ls\<close> when its path comes from a path line
  and its key from a later key line with neither a path line nor a key line between them.
  \<open>pending_pair\<close> is the same for a path that was read before \<open>ls\<close>.
\<close>

definition wellformed_pair :: "string list \<Rightarrow> db_info \<Rightarrow> bool" where
  "wellformed_pair ls d =
     (\<exists>us lp os lk vs.
        ls = us @ lp # os @ lk # vs \<and>
        classify lp = PathLine (path d) \<and>
        list_all (\<lambda>l. \<not> is_path_line l \<and> \<not> is_key_line l) os \<and>
        classify lk = KeyLine (key d))"

definition pending_pair :: "string \<Rightarrow> string list \<Rightarrow> db_info \<Rightarrow> bool" where
  "pending_pair cp ls d =
     (cp \<noteq> [] \<and> path d = cp \<and>
      (\<exists>os lk vs.
        ls = os @ lk # vs \<and>
        list_all (\<lambda>l. \<not> is_path_line l \<and> \<not> is_key_line l) os \<and>
        classify lk = KeyLine (key d)))"

text \<open>A key file of four lines: two path lines followed by two key lines.\<close>

definition example_line1 :: string where
  "example_line1 = ''sqlcipher db path: '' @ [CHR 0x27] @ ''/d/Message/msg_0.db'' @ [CHR 0x27]"

definition example_line2 :: string where
  "example_line2 = ''sqlcipher db path: '' @ [CHR 0x27] @ ''/d/Contact/wccontact.db'' @ [CHR 0x27]"

definition example_line3 :: string where
  "example_line3 = ''PRAGMA key = '' @ [CHR 0x22] @ ''x'' @ [CHR 0x27] @ ''ab12'' @ [CHR 0x27, CHR 0x22]"

definition example_line4 :: string where
  "example_line4 = ''PRAGMA key = '' @ [CHR 0x22] @ ''x'' @ [CHR 0x27] @ ''cd34'' @ [CHR 0x27, CHR 0x22]"

definition example_keys_text :: string where
  "example_keys_text =
     example_line1 @ [CHR 0x0A] @ example_line2 @ [CHR 0x0A] @
     example_line3 @ [CHR 0x0A] @ example_line4"



definition chat_100_table :: sql_table where
  "chat_100_table =
     \<lparr>t_columns = [''MesLocalID'', ''MsgCreateTime'', ''MsgContent''],
      t_rows = [[VInt 1, VInt 1700000000, VText ''hello''],
                [VInt 2, VInt 1700000060, VText ''how are you''],
                [VInt 3, VInt 1700000120, VText ''bye'']]\<rparr>"

text \<open>
  The keys that the loop over \<^verbatim>\<open>select_fields\<close> can write for the roles of a field mapping.
\<close>

definition role_keys :: "(string \<rightharpoonup> string) \<Rightarrow> string set" where
  "role_keys field_mapping =
     (if field_mapping ''time'' = None then {} else {''timestamp'', ''timestamp_raw''}) \<union>
     (if field_mapping ''sender'' = None then {} else {''sender''}) \<union>
     (if field_mapping ''content'' = None then {} else {''content''}) \<union>
     (if field_mapping ''msgid'' = None then {} else {''message_id''}) \<union>
     (if field_mapping ''type'' = None then {} else {''message_type''})"

text \<open>A table with a column that is literally named \<^verbatim>\<open>sender\<close>, and a clock and time zone.\<close>

definition sender_table :: sql_table where
  "sender_table = \<lparr>t_columns = [''sender'', ''msgtext''], t_rows = [[VText ''alice'', VText ''hi'']]\<rparr>"

definition example_env :: pyenv where
  "example_env =
     \<lparr>utcoffset = (\<lambda>s. 0), fromisoformat = (\<lambda>s. None), utf8_decode = Some,
      now_isoformat = (\<lambda>p t n. ''2025-01-01T00:00:0'' @ zfill 1 n),
      now_at_save = ''2025-01-01T00:01:00''\<rparr>"

definition example_db :: db_info where
  "example_db =
     \<lparr>path = ''/data/Message/msg_0.db'', key = ''x'' @ [CHR 0x27] @ ''ab12'' @ [CHR 0x27],
      cipher_compatibility = 3, type = ''Message''\<rparr>"

definition closed_file :: dbfile where
  "closed_file = \<lparr>db_openable = False, db_accepts = (\<lambda>k c. False), db_tables = []\<rparr>"

definition chat_100_file :: dbfile where
  "chat_100_file =
     \<lparr>db_openable = True, db_accepts = (\<lambda>k c. k = key example_db \<and> c = 3),
      db_tables = [(''Chat_100'', chat_100_table)]\<rparr>"

definition chat_100_world :: world where
  "chat_100_world = (\<lambda>p. if p = path example_db then chat_100_file else closed_file)"

definition chat_100_record :: "string \<Rightarrow> int \<Rightarrow> string \<Rightarrow> int \<Rightarrow> string \<Rightarrow> message" where
  "chat_100_record stamp sender_id ts ts_raw content_text =
     [(''database_path'', VText ''/data/Message/msg_0.db''),
      (''database_type'', VText ''Message''),
      (''table_name'', VText ''Chat_100''),
      (''extracted_at'', VText stamp),
      (''sender'', VInt sender_id),
      (''timestamp'', VText ts),
      (''timestamp_raw'', VInt ts_raw),
      (''content'', VText content_text)]"

text \<open>
  A run ends as a failure, as the specification uses the word, when the exit status of the
  process is not 0.
\<close>

definition fatal :: "main_result \<Rightarrow> bool" where
  "fatal r = (exit_code r \<noteq> 0)"

text \<open>
  A file system with a key file \<^verbatim>\<open>.keys\<close> of the given content, in which the listed paths
  exist; a key file that names two message databases; a database file that exists and
  that \<^verbatim>\<open>sqlite.connect\<close> cannot open; one that opens under no key; one without chat tables.
\<close>

definition keys_fs :: "string \<Rightarrow> string list \<Rightarrow> filesystem" where
  "keys_fs content existing =
     \<lparr>read_text = (\<lambda>p. if p = ''.keys'' then Some content else None),
      path_exists = (\<lambda>p. p = ''.keys'' \<or> p \<in> set existing),
      writable = (\<lambda>p. True)\<rparr>"

definition two_db_keys_text :: string where
  "two_db_keys_text =
     ''sqlcipher db path: '' @ [CHR 0x27] @ ''/data/Message/msg_1.db'' @ [CHR 0x27, CHR 0x0A] @
     ''PRAGMA key = '' @ [CHR 0x22] @ ''x'' @ [CHR 0x27] @ ''cd34'' @ [CHR 0x27, CHR 0x22, CHR 0x0A] @
     ''sqlcipher db path: '' @ [CHR 0x27] @ ''/data/Message/msg_0.db'' @ [CHR 0x27, CHR 0x0A] @
     ''PRAGMA key = '' @ [CHR 0x22] @ ''x'' @ [CHR 0x27] @ ''ab12'' @ [CHR 0x27, CHR 0x22, CHR 0x0A]"

definition wrong_key_file :: dbfile where
  "wrong_key_file = \<lparr>db_openable = True, db_accepts = (\<lambda>k c. False), db_tables = []\<rparr>"

definition contact_file :: dbfile where
  "contact_file =
     \<lparr>db_openable = True, db_accepts = (\<lambda>k c. True),
      db_tables = [(''WCContact'', \<lparr>t_columns = [''m_nsUsrName''], t_rows = [[VText ''wxid_1'']]\<rparr>)]\<rparr>"

definition two_db_world :: "dbfile \<Rightarrow> world" where
  "two_db_world first_file =
     (\<lambda>p. if p = ''/data/Message/msg_1.db'' then first_file
          else if p = ''/data/Message/msg_0.db'' then chat_100_file
          else closed_file)"

text \<open>
  The debug lines \<^verbatim>\<open>PRAGMA key = ...\<close> that the loop of \<^verbatim>\<open>connect_database\<close> writes, one at
  the start of each iteration: the key texts it tries, in order, up to the one that
  succeeds or the exception that ends the loop.
\<close>

fun key_format_attempts :: "dbfile \<Rightarrow> int \<Rightarrow> bool \<Rightarrow> string list \<Rightarrow> string list" where
  "key_format_attempts f cc conn_bound [] = []"
| "key_format_attempts f cc conn_bound (key_format # rest) =
     key_format #
     (if \<not> db_openable f then
        (if conn_bound then key_format_attempts f cc conn_bound rest else [])
      else if db_accepts f key_format cc then []
      else key_format_attempts f cc True rest)"

definition connect_attempts :: "world \<Rightarrow> db_info \<Rightarrow> string list" where
  "connect_attempts w db =
     key_format_attempts (w (path db)) (cipher_compatibility db) False (key_formats (key db))"

text \<open>
  Trying a list of key texts in order until the probe succeeds: the texts tried and the
  connection obtained. The key encodings as the specification lists them: the key as
  given, the key stripped of its wrapping markers \<^verbatim>\<open>x'...'\<close>, the key in double quotes, and
  the bare hexadecimal text; the attempts and the result that this list gives.
\<close>

fun attempts_until_accepted :: "dbfile \<Rightarrow> int \<Rightarrow> string list \<Rightarrow> string list" where
  "attempts_until_accepted f cc [] = []"
| "attempts_until_accepted f cc (k # ks) =
     k # (if db_accepts f k cc then [] else attempts_until_accepted f cc ks)"

fun first_accepted :: "dbfile \<Rightarrow> int \<Rightarrow> string list \<Rightarrow> connection option" where
  "first_accepted f cc [] = None"
| "first_accepted f cc (k # ks) =
     (if db_accepts f k cc then Some (db_tables f) else first_accepted f cc ks)"

definition claimed_strip_markers :: "string \<Rightarrow> string" where
  "claimed_strip_markers k =
     (if startswith k (''x'' @ [CHR 0x27]) \<and> endswith k [CHR 0x27] then drop 2 (butlast k) else k)"

definition claimed_key_encodings :: "string \<Rightarrow> string list" where
  "claimed_key_encodings k =
     [k, claimed_strip_markers k, [CHR 0x22] @ k @ [CHR 0x22], claimed_strip_markers k]"

definition claimed_attempts :: "world \<Rightarrow> db_info \<Rightarrow> string list" where
  "claimed_attempts w db =
     attempts_until_accepted (w (path db)) (cipher_compatibility db) (claimed_key_encodings (key db))"

definition claimed_connect :: "world \<Rightarrow> db_info \<Rightarrow> connection option" where
  "claimed_connect w db =
     first_accepted (w (path db)) (cipher_compatibility db) (claimed_key_encodings (key db))"

text \<open>
  A database file that opens under the raw key in double quotes and under no other text,
  and a descriptor whose key is a passphrase without the wrapping \<^verbatim>\<open>x'...'\<close>.
\<close>

definition quoted_key_file :: dbfile where
  "quoted_key_file =
     \<lparr>db_openable = True,
      db_accepts = (\<lambda>k c. k = [CHR 0x22] @ ''x'' @ [CHR 0x27] @ ''ab12'' @ [CHR 0x27, CHR 0x22] \<and> c = 3),
      db_tables = [(''Chat_100'', chat_100_table)]\<rparr>"

definition plain_key_db :: db_info where
  "plain_key_db = \<lparr>path = ''/data/Contact/wccontact.db'', key = ''abc'',
     cipher_compatibility = 3, type = ''Contact''\<rparr>"

text \<open>
  An environment in the time zone UTC whose \<^verbatim>\<open>datetime.fromisoformat\<close> parses one text, the
  date and time \<^verbatim>\<open>2023-11-14 22:13:20\<close> written with a space.
\<close>

definition iso_env :: pyenv where
  "iso_env = example_env
     \<lparr>fromisoformat :=
        (\<lambda>txt. if txt = ''2023-11-14 22:13:20'' then Some ''2023-11-14T22:13:20'' else None)\<rparr>"

section \<open>Properties of the string operations\<close>

lemma startswith_iff: "startswith s p \<longleftrightarrow> (\<exists>r. s = p @ r)"
proof
  assume "startswith s p"
  then have "s = p @ drop (length p) s"
    unfolding startswith_def by (metis append_take_drop_id)
  then show "\<exists>r. s = p @ r" ..
next
  assume "\<exists>r. s = p @ r"
  then show "startswith s p" unfolding startswith_def by auto
qed

lemma startswith_prefix: "startswith s p \<longleftrightarrow> prefix p s"
  by (simp add: startswith_iff prefix_def)

lemma str_in_sublist: "str_in sub s \<longleftrightarrow> sublist sub s"
proof (induction s)
  case Nil
  then show ?case by simp
next
  case (Cons c cs)
  then show ?case
    by (simp add: sublist_Cons_right startswith_prefix)
qed

lemma re_match_chat_digits_iff:
  "re_match_chat_digits s \<longleftrightarrow>
     (\<exists>ds. ds \<noteq> [] \<and> list_all isdigit ds \<and>
           (s = ''chat'' @ ds \<or> s = ''chat'' @ ds @ [CHR 0x0A]))"
proof
  assume m: "re_match_chat_digits s"
  define rest where "rest = drop (length ''chat'') s"
  define ds where "ds = takeWhile isdigit rest"
  have "take (length ''chat'') s = ''chat''"
    using m unfolding re_match_chat_digits_def startswith_def by simp
  then have s: "s = ''chat'' @ rest"
    unfolding rest_def using append_take_drop_id [of "length ''chat''" s] by simp
  have ne: "ds \<noteq> []"
    and tl: "dropWhile isdigit rest = [] \<or> dropWhile isdigit rest = [CHR 0x0A]"
    using m unfolding re_match_chat_digits_def rest_def ds_def by (simp_all add: Let_def)
  have d: "list_all isdigit ds"
    unfolding ds_def list_all_iff using set_takeWhileD by fast
  have split: "rest = ds @ dropWhile isdigit rest"
    unfolding ds_def by simp
  from tl have "s = ''chat'' @ ds \<or> s = ''chat'' @ ds @ [CHR 0x0A]"
  proof
    assume "dropWhile isdigit rest = []"
    with split have "rest = ds" by simp
    with s show ?thesis by simp
  next
    assume "dropWhile isdigit rest = [CHR 0x0A]"
    with split have "rest = ds @ [CHR 0x0A]" by simp
    with s show ?thesis by simp
  qed
  with ne d show "\<exists>ds. ds \<noteq> [] \<and> list_all isdigit ds \<and>
      (s = ''chat'' @ ds \<or> s = ''chat'' @ ds @ [CHR 0x0A])"
    by blast
next
  assume "\<exists>ds. ds \<noteq> [] \<and> list_all isdigit ds \<and>
      (s = ''chat'' @ ds \<or> s = ''chat'' @ ds @ [CHR 0x0A])"
  then obtain ds where ne: "ds \<noteq> []" and d: "list_all isdigit ds"
    and s: "s = ''chat'' @ ds \<or> s = ''chat'' @ ds @ [CHR 0x0A]" by blast
  have nl: "\<not> isdigit (CHR 0x0A)" by (simp add: isdigit_def)
  have tw: "takeWhile isdigit ds = ds" using d by (simp add: list_all_iff)
  have dw: "dropWhile isdigit ds = []" using d by (simp add: list_all_iff)
  have tw2: "takeWhile isdigit (ds @ [CHR 0x0A]) = ds"
    using d nl by (simp add: list_all_iff takeWhile_append2)
  have dw2: "dropWhile isdigit (ds @ [CHR 0x0A]) = [CHR 0x0A]"
    using d nl by (simp add: list_all_iff dropWhile_append2)
  from s show "re_match_chat_digits s"
  proof
    assume "s = ''chat'' @ ds"
    then show ?thesis
      using d by (simp add: re_match_chat_digits_def startswith_def tw dw ne list_all_iff)
  next
    assume "s = ''chat'' @ ds @ [CHR 0x0A]"
    then show ?thesis
      using d by (simp add: re_match_chat_digits_def startswith_def tw2 dw2 ne list_all_iff)
  qed
qed

section \<open>Claim C4: which table names count as chat tables\<close>

lemma lower_chat1_newline: "lower (''chat1'' @ [CHR 0x0A]) = ''chat1'' @ [CHR 0x0A]"
  by code_simp

lemma lower_char_newline: "lower_char c = CHR 0x0A \<Longrightarrow> c = CHR 0x0A"
proof (rule ccontr)
  assume l: "lower_char c = CHR 0x0A" and n: "c \<noteq> CHR 0x0A"
  define n where "n = (of_char c :: nat)"
  from l n have u: "(65 \<le> n \<and> n \<le> 90) \<or> (192 \<le> n \<and> n \<le> 222 \<and> n \<noteq> 215)"
    and e: "char_of (n + 32) = CHR 0x0A"
    unfolding lower_char_def Let_def n_def by (auto split: if_splits)
  from e have "of_char (char_of (n + 32) :: char) = (of_char (CHR 0x0A) :: nat)" by simp
  then have m: "(n + 32) mod 256 = 10" by simp
  from u have "n + 32 < 256" by linarith
  then have "(n + 32) mod 256 = n + 32" by simp
  with m show False by linarith
qed

lemma lower_no_newline: "CHR 0x0A \<notin> set name \<Longrightarrow> CHR 0x0A \<notin> set (lower name)"
proof
  assume a: "CHR 0x0A \<notin> set name" and b: "CHR 0x0A \<in> set (lower name)"
  from b obtain c where c: "c \<in> set name" and l: "lower_char c = CHR 0x0A"
    unfolding lower_def by auto
  from lower_char_newline [OF l] c a show False by simp
qed

text \<open>
  The name predicate of \<^verbatim>\<open>find_chat_tables\<close> holds exactly for the names that the
  specification describes and for those whose lowercase form is \<^verbatim>\<open>chat\<close>, one or more digits
  and one final newline.
\<close>

lemma chat_table_pattern_iff:
  "chat_table_pattern name \<longleftrightarrow>
     (claimed_isChatTableName name \<or>
      (\<exists>ds. ds \<noteq> [] \<and> list_all isdigit ds \<and> lower name = ''chat'' @ ds @ [CHR 0x0A]))"
  unfolding chat_table_pattern_def claimed_isChatTableName_def claimed_chat_digits_def Let_def
    startswith_prefix str_in_sublist re_match_chat_digits_iff
  by blast

text \<open>For a name without a newline the predicate is the one of the specification.\<close>

lemma chat_table_pattern_without_newline:
  assumes "CHR 0x0A \<notin> set name"
  shows "chat_table_pattern name \<longleftrightarrow> claimed_isChatTableName name"
proof -
  have "\<not> (\<exists>ds. ds \<noteq> [] \<and> list_all isdigit ds \<and> lower name = ''chat'' @ ds @ [CHR 0x0A])"
  proof
    assume "\<exists>ds. ds \<noteq> [] \<and> list_all isdigit ds \<and> lower name = ''chat'' @ ds @ [CHR 0x0A]"
    then obtain ds where "lower name = ''chat'' @ ds @ [CHR 0x0A]" by blast
    then have "CHR 0x0A \<in> set (lower name)" by simp
    with lower_no_newline [OF assms] show False by blast
  qed
  with chat_table_pattern_iff [of name] show ?thesis by blast
qed

text \<open>The names that the specification lists as examples.\<close>

lemma chat_table_pattern_examples:
  "chat_table_pattern ''Chat_1''" "chat_table_pattern ''chat''"
  "chat_table_pattern ''chat42''" "chat_table_pattern ''chatroom_7''"
  "chat_table_pattern ''message_5''" "chat_table_pattern ''ChatRoom''"
  "\<not> chat_table_pattern ''UserInfo''" "\<not> chat_table_pattern ''Session''"
  by code_simp+

text \<open>
  Claim C4 says that the name predicate of \<^verbatim>\<open>find_chat_tables\<close> is true exactly when the
  lowercase name starts with \<^verbatim>\<open>chat_\<close>, \<^verbatim>\<open>chatroom_\<close> or \<^verbatim>\<open>message_\<close>, equals \<^verbatim>\<open>chat\<close>, is
  \<^verbatim>\<open>chat\<close> followed only by digits, or contains both \<^verbatim>\<open>chat\<close> and \<^verbatim>\<open>room\<close>. The code keeps
  the table name \<^verbatim>\<open>"chat1\n"\<close>, for which none of these conditions holds: the pattern
  \<^verbatim>\<open>^chat\d+$\<close> is anchored to accept \<^verbatim>\<open>chat\<close> followed only by digits, and \<^verbatim>\<open>$\<close> also
  matches before a newline that ends the string.
\<close>

theorem chat_name_trailing_newline_counterexample:
  "chat_table_pattern (''chat1'' @ [CHR 0x0A]) \<and>
   \<not> claimed_isChatTableName (''chat1'' @ [CHR 0x0A])"
proof
  show "chat_table_pattern (''chat1'' @ [CHR 0x0A])" by code_simp
  have "\<not> claimed_chat_digits (''chat1'' @ [CHR 0x0A])"
    by (auto simp add: claimed_chat_digits_def isdigit_def)
  moreover have "\<not> prefix ''chat_'' (''chat1'' @ [CHR 0x0A])" by simp
  moreover have "\<not> prefix ''chatroom_'' (''chat1'' @ [CHR 0x0A])" by simp
  moreover have "\<not> prefix ''message_'' (''chat1'' @ [CHR 0x0A])" by simp
  moreover have "\<not> sublist ''room'' (''chat1'' @ [CHR 0x0A])" by code_simp
  ultimately show "\<not> claimed_isChatTableName (''chat1'' @ [CHR 0x0A])"
    unfolding claimed_isChatTableName_def Let_def lower_chat1_newline by simp
qed

section \<open>Claim C5: the key file parser\<close>

lemma parse_lines_Cons:
  "parse_lines (l # ls) cp ks =
     (case classify l of
        Blank \<Rightarrow> parse_lines ls cp ks
      | PathLine p \<Rightarrow> parse_lines ls p ks
      | KeyLine k \<Rightarrow> if cp \<noteq> [] then parse_lines ls [] (ks @ [mk_info cp k]) else parse_lines ls cp ks
      | Other \<Rightarrow> parse_lines ls cp ks)"
  by (simp add: classify_def mk_info_def Let_def split: option.splits)

lemma re_match_quoted_nonempty: "re_match_quoted pre q line = Some g \<Longrightarrow> g \<noteq> []"
  by (auto simp: re_match_quoted_def Let_def split: if_splits)

lemma classify_PathLine_nonempty: "classify l = PathLine p \<Longrightarrow> p \<noteq> []"
  by (auto simp: classify_def Let_def path_match_def split: if_splits option.splits
      dest: re_match_quoted_nonempty)

lemma classify_KeyLine_nonempty: "classify l = KeyLine k \<Longrightarrow> k \<noteq> []"
  by (auto simp: classify_def Let_def key_match_def split: if_splits option.splits
      dest: re_match_quoted_nonempty)

lemma parse_lines_acc: "parse_lines ls cp ks = ks @ parse_lines ls cp []"
proof (induction ls arbitrary: cp ks)
  case Nil
  then show ?case by simp
next
  case (Cons l ls)
  show ?case
  proof (cases "classify l")
    case (KeyLine k)
    show ?thesis
    proof (cases "cp = []")
      case True
      then show ?thesis
        using Cons.IH [of "[]" ks]
        by (simp add: parse_lines_Cons KeyLine del: parse_lines.simps)
    next
      case False
      then show ?thesis
        using Cons.IH [of "[]" "ks @ [mk_info cp k]"] Cons.IH [of "[]" "[mk_info cp k]"]
        by (simp add: parse_lines_Cons KeyLine del: parse_lines.simps)
    qed
  next
    case Blank
    then show ?thesis
      using Cons.IH [of cp ks] by (simp add: parse_lines_Cons del: parse_lines.simps)
  next
    case (PathLine p)
    then show ?thesis
      using Cons.IH [of p ks] by (simp add: parse_lines_Cons del: parse_lines.simps)
  next
    case Other
    then show ?thesis
      using Cons.IH [of cp ks] by (simp add: parse_lines_Cons del: parse_lines.simps)
  qed
qed

lemma parse_lines_append:
  "parse_lines (xs @ ys) cp ks = parse_lines ys (pending xs cp) (parse_lines xs cp ks)"
proof (induction xs arbitrary: cp ks)
  case Nil
  then show ?case by simp
next
  case (Cons l ls)
  show ?case
    by (cases "classify l") (simp_all add: parse_lines_Cons Cons.IH del: parse_lines.simps)
qed

lemma parse_lines_pending_irrelevant:
  "list_all (\<lambda>y. \<not> is_key_line y) (takeWhile (\<lambda>y. \<not> is_path_line y) ys) \<Longrightarrow>
   parse_lines ys a ks = parse_lines ys b ks"
proof (induction ys arbitrary: a b ks)
  case Nil
  then show ?case by simp
next
  case (Cons l ls)
  then show ?case
    by (cases "classify l")
      (auto simp add: parse_lines_Cons is_key_line_def is_path_line_def simp del: parse_lines.simps)
qed

lemma pending_snoc:
  "pending (xs @ [x]) cp =
     (case classify x of PathLine p \<Rightarrow> p | KeyLine k \<Rightarrow> [] | _ \<Rightarrow> pending xs cp)"
  by (induction xs arbitrary: cp) (auto split: line_kind.splits)

lemma pending_empty:
  "list_all (\<lambda>x. \<not> is_path_line x) (takeWhile (\<lambda>x. \<not> is_key_line x) (rev xs)) \<Longrightarrow>
   pending xs [] = []"
proof (induction xs rule: rev_induct)
  case Nil
  then show ?case by simp
next
  case (snoc x xs)
  then show ?case
    by (cases "classify x") (auto simp add: pending_snoc is_key_line_def is_path_line_def)
qed

lemma unmatched_path:
  assumes "is_path_line l"
    and "list_all (\<lambda>y. \<not> is_key_line y) (takeWhile (\<lambda>y. \<not> is_path_line y) ys)"
  shows "parse_lines (xs @ l # ys) [] [] = parse_lines (xs @ ys) [] []"
proof -
  obtain p where p: "classify l = PathLine p"
    using assms(1) by (auto simp: is_path_line_def split: line_kind.splits)
  have "parse_lines (xs @ l # ys) [] [] = parse_lines ys p (parse_lines xs [] [])"
    by (simp add: parse_lines_append parse_lines_Cons p del: parse_lines.simps)
  also have "\<dots> = parse_lines ys (pending xs []) (parse_lines xs [] [])"
    by (rule parse_lines_pending_irrelevant [OF assms(2)])
  also have "\<dots> = parse_lines (xs @ ys) [] []"
    by (simp add: parse_lines_append)
  finally show ?thesis .
qed

lemma unmatched_key:
  assumes "is_key_line l"
    and "list_all (\<lambda>x. \<not> is_path_line x) (takeWhile (\<lambda>x. \<not> is_key_line x) (rev xs))"
  shows "parse_lines (xs @ l # ys) [] [] = parse_lines (xs @ ys) [] []"
proof -
  obtain k where k: "classify l = KeyLine k"
    using assms(1) by (auto simp: is_key_line_def split: line_kind.splits)
  have e: "pending xs [] = []" by (rule pending_empty [OF assms(2)])
  show ?thesis
    by (simp add: parse_lines_append parse_lines_Cons k e del: parse_lines.simps)
qed


lemma wellformed_pair_Cons: "wellformed_pair ls d \<Longrightarrow> wellformed_pair (l # ls) d"
  unfolding wellformed_pair_def
proof (elim exE conjE)
  fix us lp os lk vs
  assume "ls = us @ lp # os @ lk # vs" and c: "classify lp = PathLine (path d)"
    "list_all (\<lambda>l. \<not> is_path_line l \<and> \<not> is_key_line l) os" "classify lk = KeyLine (key d)"
  then have "l # ls = (l # us) @ lp # os @ lk # vs" by simp
  with c show "\<exists>us lp os lk vs. l # ls = us @ lp # os @ lk # vs \<and>
      classify lp = PathLine (path d) \<and>
      list_all (\<lambda>l. \<not> is_path_line l \<and> \<not> is_key_line l) os \<and>
      classify lk = KeyLine (key d)" by blast
qed

lemma pending_pair_skip:
  assumes "pending_pair cp ls d" "\<not> is_path_line l" "\<not> is_key_line l"
  shows "pending_pair cp (l # ls) d"
proof -
  from assms(1) obtain os lk vs where cp: "cp \<noteq> []" "path d = cp"
    and ls: "ls = os @ lk # vs"
    and os: "list_all (\<lambda>l. \<not> is_path_line l \<and> \<not> is_key_line l) os"
    and lk: "classify lk = KeyLine (key d)"
    unfolding pending_pair_def by blast
  have "l # ls = (l # os) @ lk # vs" using ls by simp
  moreover have "list_all (\<lambda>l. \<not> is_path_line l \<and> \<not> is_key_line l) (l # os)"
    using os assms(2,3) by simp
  ultimately show ?thesis
    unfolding pending_pair_def using cp lk by blast
qed

lemma pending_pair_start:
  assumes "pending_pair p ls d" "classify l = PathLine p"
  shows "wellformed_pair (l # ls) d"
proof -
  from assms(1) obtain os lk vs where cp: "path d = p"
    and ls: "ls = os @ lk # vs"
    and os: "list_all (\<lambda>l. \<not> is_path_line l \<and> \<not> is_key_line l) os"
    and lk: "classify lk = KeyLine (key d)"
    unfolding pending_pair_def by blast
  have "l # ls = [] @ l # os @ lk # vs" using ls by simp
  moreover have "classify l = PathLine (path d)" using assms(2) cp by simp
  ultimately show ?thesis
    unfolding wellformed_pair_def using os lk by blast
qed

lemma parse_lines_pairs:
  "d \<in> set (parse_lines ls cp []) \<Longrightarrow>
     (pending_pair cp ls d \<or> wellformed_pair ls d) \<and> d = mk_info (path d) (key d)"
proof (induction ls arbitrary: cp)
  case Nil
  then show ?case by simp
next
  case (Cons l ls)
  show ?case
  proof (cases "classify l")
    case Blank
    then have np: "\<not> is_path_line l" "\<not> is_key_line l"
      by (simp_all add: is_path_line_def is_key_line_def)
    from Cons.prems Blank have "d \<in> set (parse_lines ls cp [])"
      by (simp add: parse_lines_Cons del: parse_lines.simps)
    from Cons.IH [OF this] show ?thesis
      using np pending_pair_skip wellformed_pair_Cons by blast
  next
    case Other
    then have np: "\<not> is_path_line l" "\<not> is_key_line l"
      by (simp_all add: is_path_line_def is_key_line_def)
    from Cons.prems Other have "d \<in> set (parse_lines ls cp [])"
      by (simp add: parse_lines_Cons del: parse_lines.simps)
    from Cons.IH [OF this] show ?thesis
      using np pending_pair_skip wellformed_pair_Cons by blast
  next
    case (PathLine p)
    from Cons.prems PathLine have "d \<in> set (parse_lines ls p [])"
      by (simp add: parse_lines_Cons del: parse_lines.simps)
    from Cons.IH [OF this] show ?thesis
      using PathLine pending_pair_start wellformed_pair_Cons by blast
  next
    case (KeyLine k)
    show ?thesis
    proof (cases "cp = []")
      case True
      with Cons.prems KeyLine have "d \<in> set (parse_lines ls [] [])"
        by (simp add: parse_lines_Cons del: parse_lines.simps)
      from Cons.IH [OF this] show ?thesis
        using wellformed_pair_Cons by (auto simp: pending_pair_def)
    next
      case False
      with Cons.prems KeyLine have "d \<in> set (parse_lines ls [] [mk_info cp k])"
        by (simp add: parse_lines_Cons del: parse_lines.simps)
      then have "d = mk_info cp k \<or> d \<in> set (parse_lines ls [] [])"
        using parse_lines_acc [of ls "[]" "[mk_info cp k]"] by auto
      then show ?thesis
      proof
        assume d: "d = mk_info cp k"
        have "l # ls = [] @ l # ls" by simp
        moreover have "classify l = KeyLine (key d)" using KeyLine d by (simp add: mk_info_def)
        moreover have "path d = cp" using d by (simp add: mk_info_def)
        moreover have "list_all (\<lambda>l. \<not> is_path_line l \<and> \<not> is_key_line l) []" by simp
        ultimately have "pending_pair cp (l # ls) d"
          unfolding pending_pair_def using False by blast
        moreover have "d = mk_info (path d) (key d)" using d by (simp add: mk_info_def)
        ultimately show ?thesis by blast
      next
        assume "d \<in> set (parse_lines ls [] [])"
        from Cons.IH [OF this] show ?thesis
          using wellformed_pair_Cons by (auto simp: pending_pair_def)
      qed
    qed
  qed
qed


text \<open>
  Claim C5: for every key-descriptor text, \<^verbatim>\<open>parse_keys\<close> returns only well-formed
  (path, key) pairs: every descriptor has the path of a path line and the key of a later key
  line with no path line and no key line between the two, neither is empty, the
  compatibility mode is 3 and the type is derived from the path. A path line that is not
  followed by a key line before the next path line or the end of the input contributes no
  descriptor (the result is that of the text without the line), and so does a key line
  with no path line since the previous key line or the start.
\<close>

theorem parse_keys_wellformed:
  "(\<forall>d \<in> set (parse_keys content).
      wellformed_pair (split_on (CHR 0x0A) content) d \<and> path d \<noteq> [] \<and> key d \<noteq> [] \<and>
      cipher_compatibility d = 3 \<and> type d = extract_db_type (path d)) \<and>
   (\<forall>xs l ys.
      split_on (CHR 0x0A) content = xs @ l # ys \<and> is_path_line l \<and>
      list_all (\<lambda>y. \<not> is_key_line y) (takeWhile (\<lambda>y. \<not> is_path_line y) ys) \<longrightarrow>
      parse_keys content = parse_lines (xs @ ys) [] []) \<and>
   (\<forall>xs l ys.
      split_on (CHR 0x0A) content = xs @ l # ys \<and> is_key_line l \<and>
      list_all (\<lambda>x. \<not> is_path_line x) (takeWhile (\<lambda>x. \<not> is_key_line x) (rev xs)) \<longrightarrow>
      parse_keys content = parse_lines (xs @ ys) [] [])"
proof (intro conjI ballI allI impI)
  fix d assume d: "d \<in> set (parse_keys content)"
  then have m: "d \<in> set (parse_lines (split_on (CHR 0x0A) content) [] [])"
    by (simp add: parse_keys_def)
  from parse_lines_pairs [OF m]
  have w: "wellformed_pair (split_on (CHR 0x0A) content) d" and e: "d = mk_info (path d) (key d)"
    by (auto simp: pending_pair_def)
  from w show "wellformed_pair (split_on (CHR 0x0A) content) d" .
  from w show "path d \<noteq> []"
    unfolding wellformed_pair_def using classify_PathLine_nonempty by blast
  from w show "key d \<noteq> []"
    unfolding wellformed_pair_def using classify_KeyLine_nonempty by blast
  have "cipher_compatibility (mk_info (path d) (key d)) = 3" by (simp add: mk_info_def)
  with e show "cipher_compatibility d = 3" by simp
  have "type (mk_info (path d) (key d)) = extract_db_type (path d)" by (simp add: mk_info_def)
  with e show "type d = extract_db_type (path d)" by simp
next
  fix xs l ys
  assume "split_on (CHR 0x0A) content = xs @ l # ys \<and> is_path_line l \<and>
      list_all (\<lambda>y. \<not> is_key_line y) (takeWhile (\<lambda>y. \<not> is_path_line y) ys)"
  then show "parse_keys content = parse_lines (xs @ ys) [] []"
    using unmatched_path [of l ys xs] by (simp add: parse_keys_def)
next
  fix xs l ys
  assume "split_on (CHR 0x0A) content = xs @ l # ys \<and> is_key_line l \<and>
      list_all (\<lambda>x. \<not> is_path_line x) (takeWhile (\<lambda>x. \<not> is_key_line x) (rev xs))"
  then show "parse_keys content = parse_lines (xs @ ys) [] []"
    using unmatched_key [of l xs ys] by (simp add: parse_keys_def)
qed

lemma example_split:
  "split_on (CHR 0x0A) example_keys_text = [example_line1, example_line2, example_line3, example_line4]"
  by code_simp

lemma example_parse:
  "parse_keys example_keys_text =
     [\<lparr>path = ''/d/Contact/wccontact.db'', key = ''x'' @ [CHR 0x27] @ ''ab12'' @ [CHR 0x27],
       cipher_compatibility = 3, type = ''Contact''\<rparr>]"
  by code_simp

lemma example_kinds:
  "is_path_line (example_line1)" "is_path_line (example_line2)"
  "is_key_line (example_line3)" "is_key_line (example_line4)"
  "\<not> is_key_line (example_line2)" "\<not> is_path_line (example_line3)"
  by code_simp+

theorem parse_keys_wellformed_witness:
  "parse_keys example_keys_text =
     [\<lparr>path = ''/d/Contact/wccontact.db'', key = ''x'' @ [CHR 0x27] @ ''ab12'' @ [CHR 0x27],
       cipher_compatibility = 3, type = ''Contact''\<rparr>] \<and>
   wellformed_pair (split_on (CHR 0x0A) example_keys_text)
     \<lparr>path = ''/d/Contact/wccontact.db'', key = ''x'' @ [CHR 0x27] @ ''ab12'' @ [CHR 0x27],
       cipher_compatibility = 3, type = ''Contact''\<rparr> \<and>
   parse_keys example_keys_text =
     parse_lines [example_line2, example_line3, example_line4] [] [] \<and>
   parse_keys example_keys_text =
     parse_lines [example_line1, example_line2, example_line3] [] []"
proof -
  note t = parse_keys_wellformed [of example_keys_text]
  have a: "split_on (CHR 0x0A) example_keys_text =
      [] @ example_line1 # [example_line2, example_line3, example_line4]"
    by (simp add: example_split)
  have b: "split_on (CHR 0x0A) example_keys_text =
      [example_line1, example_line2, example_line3] @ example_line4 # []"
    by (simp add: example_split)
  have h1: "list_all (\<lambda>y. \<not> is_key_line y)
      (takeWhile (\<lambda>y. \<not> is_path_line y) [example_line2, example_line3, example_line4])"
    by (simp add: example_kinds)
  have h2: "list_all (\<lambda>x. \<not> is_path_line x)
      (takeWhile (\<lambda>x. \<not> is_key_line x) (rev [example_line1, example_line2, example_line3]))"
    by (simp add: example_kinds)
  from t a h1 example_kinds(1)
  have r1: "parse_keys example_keys_text =
      parse_lines ([] @ [example_line2, example_line3, example_line4]) [] []"
    by blast
  from t b h2 example_kinds(4)
  have r2: "parse_keys example_keys_text =
      parse_lines ([example_line1, example_line2, example_line3] @ []) [] []"
    by blast
  define d0 where "d0 = \<lparr>path = ''/d/Contact/wccontact.db'',
       key = ''x'' @ [CHR 0x27] @ ''ab12'' @ [CHR 0x27],
       cipher_compatibility = 3, type = ''Contact''\<rparr>"
  have p: "parse_keys example_keys_text = [d0]"
    unfolding d0_def by (rule example_parse)
  then have "d0 \<in> set (parse_keys example_keys_text)" by simp
  with t have r3: "wellformed_pair (split_on (CHR 0x0A) example_keys_text) d0" by blast
  from r1 r2 r3 p show ?thesis unfolding d0_def by simp
qed

section \<open>Claim C2: structural validation of a table\<close>




section \<open>Properties of the extraction\<close>

lemma find_column_in: "find_column columns candidates = Some c \<Longrightarrow> c \<in> set columns"
proof (induction candidates)
  case Nil
  then show ?case by simp
next
  case (Cons candidate candidates)
  then show ?case
    by (auto split: option.splits simp: find_Some_iff)
qed

lemma find_column_hit:
  assumes "candidate \<in> set candidates" "c \<in> set columns" "str_in (lower candidate) (lower c)"
  shows "find_column columns candidates \<noteq> None"
  using assms(1)
proof (induction candidates)
  case Nil
  then show ?case by simp
next
  case (Cons a candidates)
  show ?case
  proof (cases "find (\<lambda>column. str_in (lower a) (lower column)) columns")
    case (Some x)
    then show ?thesis by simp
  next
    case None
    then have "a \<noteq> candidate" using assms(2,3) by (auto simp: find_None_iff)
    with Cons have "find_column columns candidates \<noteq> None" by auto
    with None show ?thesis by simp
  qed
qed

lemma set_field_keys_lower:
  "fst ` set m \<subseteq> fst ` set (set_field env fm r m p)"
  by (auto simp add: set_field_def Let_def dom_update)

lemma set_field_keys_upper:
  "fst ` set (set_field env fm r m p) \<subseteq> fst ` set m \<union> insert (snd p) (role_keys fm)"
  by (auto simp add: set_field_def Let_def dom_update role_keys_def)

lemma foldl_set_field_keys_lower:
  "fst ` set m \<subseteq> fst ` set (foldl (set_field env fm r) m ps)"
proof (induction ps arbitrary: m)
  case Nil
  then show ?case by simp
next
  case (Cons p ps)
  have "fst ` set m \<subseteq> fst ` set (set_field env fm r m p)" by (rule set_field_keys_lower)
  also have "\<dots> \<subseteq> fst ` set (foldl (set_field env fm r) (set_field env fm r m p) ps)"
    by (rule Cons.IH)
  finally show ?case by simp
qed

lemma foldl_set_field_keys_upper:
  "fst ` set (foldl (set_field env fm r) m ps) \<subseteq> fst ` set m \<union> snd ` set ps \<union> role_keys fm"
proof (induction ps arbitrary: m)
  case Nil
  then show ?case by simp
next
  case (Cons p ps)
  have "fst ` set (foldl (set_field env fm r) (set_field env fm r m p) ps)
      \<subseteq> fst ` set (set_field env fm r m p) \<union> snd ` set ps \<union> role_keys fm"
    by (rule Cons.IH)
  also have "\<dots> \<subseteq> (fst ` set m \<union> insert (snd p) (role_keys fm)) \<union> snd ` set ps \<union> role_keys fm"
    using set_field_keys_upper [of env fm r m p] by blast
  finally show ?case by auto
qed

lemma build_message_base_keys:
  "{''database_path'', ''database_type'', ''table_name'', ''extracted_at''}
     \<subseteq> fst ` set (build_message env db table_name select_fields fm n_row)"
proof -
  let ?init = "[(''database_path'', VText (path db)), (''database_type'', VText (type db)),
     (''table_name'', VText table_name),
     (''extracted_at'', VText (now_isoformat env (path db) table_name (fst n_row)))]"
  have "fst ` set ?init \<subseteq> fst ` set (build_message env db table_name select_fields fm n_row)"
    unfolding build_message_def by (rule foldl_set_field_keys_lower)
  then show ?thesis by simp
qed

lemma build_message_keys:
  "fst ` set (build_message env db table_name select_fields fm n_row)
     \<subseteq> {''database_path'', ''database_type'', ''table_name'', ''extracted_at''}
        \<union> set select_fields \<union> role_keys fm"
proof -
  let ?init = "[(''database_path'', VText (path db)), (''database_type'', VText (type db)),
     (''table_name'', VText table_name),
     (''extracted_at'', VText (now_isoformat env (path db) table_name (fst n_row)))]"
  have "fst ` set (build_message env db table_name select_fields fm n_row)
      \<subseteq> fst ` set ?init \<union> snd ` set (enumerate 0 select_fields) \<union> role_keys fm"
    unfolding build_message_def by (rule foldl_set_field_keys_upper)
  moreover have "snd ` set (enumerate 0 select_fields) = set select_fields"
    by (metis list.set_map map_snd_enumerate)
  ultimately show ?thesis by auto
qed

lemma fetch_batches_members:
  "m \<in> set (fetch_batches env conn db table_name select_fields fm offset msgs) \<Longrightarrow>
   m \<in> set msgs \<or> (\<exists>n_row. m = build_message env db table_name select_fields fm n_row)"
proof (induction env conn db table_name select_fields fm offset msgs rule: fetch_batches.induct)
  case (1 env conn db table_name select_fields field_mapping offset msgs)
  show ?case
  proof (cases "execute_select conn table_name select_fields 1000 offset")
    case (Inl e)
    with "1.prems" show ?thesis by (subst (asm) fetch_batches.simps) simp
  next
    case (Inr rows)
    show ?thesis
    proof (cases "rows = []")
      case True
      with Inr "1.prems" show ?thesis by (subst (asm) fetch_batches.simps) simp
    next
      case False
      with Inr "1.prems"
      have "m \<in> set (fetch_batches env conn db table_name select_fields field_mapping (offset + 1000)
          (msgs @ map (build_message env db table_name select_fields field_mapping)
             (enumerate offset rows)))"
        by (subst (asm) fetch_batches.simps) simp
      from "1.IH" [OF Inr False this] show ?thesis by auto
    qed
  qed
qed

lemma add_role_mapping:
  "snd (add_role role col acc) r =
     (if r = role \<and> col \<noteq> None \<and> col \<noteq> Some [] then col else snd acc r)"
  by (auto simp add: add_role_def split: option.splits)

lemma add_role_fields:
  "set (fst (add_role role col acc)) \<subseteq> set (fst acc) \<union> set_option col"
  by (auto simp add: add_role_def split: option.splits)

lemma add_other_columns_subset:
  "set (add_other_columns columns select_fields) \<subseteq> set select_fields \<union> set columns"
proof -
  have "set (foldl (\<lambda>sf col. if col \<notin> set sf \<and> col \<notin> set [''rowid''] then sf @ [col] else sf) sf cs)
      \<subseteq> set sf \<union> set cs" for sf cs
  proof (induction cs arbitrary: sf)
    case Nil
    then show ?case by simp
  next
    case (Cons c cs)
    show ?case using Cons.IH [of "if c \<notin> set sf \<and> c \<notin> set [''rowid''] then sf @ [c] else sf"]
      by (auto split: if_splits)
  qed
  then show ?thesis unfolding add_other_columns_def .
qed


lemma extract_chat_data_members:
  assumes "m \<in> set (extract_chat_data env conn table_name columns db)"
  shows "\<exists>select_fields fm n_row.
     m = build_message env db table_name select_fields fm n_row \<and>
     set select_fields \<subseteq> set columns \<and>
     (fm ''sender'' \<noteq> None \<longrightarrow> find_column columns [''meslocalid'', ''messvrid'', ''localid''] \<noteq> None) \<and>
     (fm ''time'' \<noteq> None \<longrightarrow>
        find_column columns [''msgcreatetime'', ''createtime'', ''timestamp'', ''time''] \<noteq> None) \<and>
     (fm ''content'' \<noteq> None \<longrightarrow>
        find_column columns [''msgcontent'', ''content'', ''message'', ''msg''] \<noteq> None) \<and>
     (fm ''msgid'' \<noteq> None \<longrightarrow>
        find_column columns [''meslocalid'', ''messvrid'', ''msgid'', ''id'', ''localid''] \<noteq> None) \<and>
     (fm ''type'' \<noteq> None \<longrightarrow> find_column columns [''messagetype'', ''msgtype'', ''type''] \<noteq> None)"
proof -
  define sender_col where "sender_col = find_column columns [''meslocalid'', ''messvrid'', ''localid'']"
  define time_col where
    "time_col = find_column columns [''msgcreatetime'', ''createtime'', ''timestamp'', ''time'']"
  define content_col where
    "content_col = find_column columns [''msgcontent'', ''content'', ''message'', ''msg'']"
  define msgid_col where
    "msgid_col = find_column columns [''meslocalid'', ''messvrid'', ''msgid'', ''id'', ''localid'']"
  define type_col where "type_col = find_column columns [''messagetype'', ''msgtype'', ''type'']"
  define roles where "roles = add_role ''type'' type_col (add_role ''msgid'' msgid_col
      (add_role ''content'' content_col (add_role ''time'' time_col
        (add_role ''sender'' sender_col ([], Map.empty)))))"
  define sf where "sf = add_other_columns columns (fst roles)"
  have e: "extract_chat_data env conn table_name columns db =
      (if sf = [] then [] else fetch_batches env conn db table_name sf (snd roles) 0 [])"
    unfolding extract_chat_data_def Let_def sf_def roles_def sender_col_def time_col_def
      content_col_def msgid_col_def type_col_def ..
  from assms e have "sf \<noteq> []" and "m \<in> set (fetch_batches env conn db table_name sf (snd roles) 0 [])"
    by (auto split: if_splits)
  from fetch_batches_members [OF this(2)]
  obtain n_row where m: "m = build_message env db table_name sf (snd roles) n_row" by auto
  have in_cols: "set_option c \<subseteq> set columns" if "c = find_column columns cands" for c cands
    using that find_column_in [of columns cands] by (cases c) auto
  have "set (fst roles) \<subseteq> set_option type_col \<union> set_option msgid_col \<union> set_option content_col
      \<union> set_option time_col \<union> set_option sender_col"
    unfolding roles_def
    using add_role_fields [of "''type''" type_col] add_role_fields [of "''msgid''" msgid_col]
      add_role_fields [of "''content''" content_col] add_role_fields [of "''time''" time_col]
      add_role_fields [of "''sender''" sender_col "([], Map.empty)"]
    by (simp add: subset_iff) blast
  then have "set (fst roles) \<subseteq> set columns"
    using in_cols [OF sender_col_def] in_cols [OF time_col_def] in_cols [OF content_col_def]
      in_cols [OF msgid_col_def] in_cols [OF type_col_def] by blast
  then have sub: "set sf \<subseteq> set columns"
    unfolding sf_def using add_other_columns_subset [of columns "fst roles"] by blast
  have fm: "snd roles ''sender'' \<noteq> None \<longrightarrow> sender_col \<noteq> None"
    "snd roles ''time'' \<noteq> None \<longrightarrow> time_col \<noteq> None"
    "snd roles ''content'' \<noteq> None \<longrightarrow> content_col \<noteq> None"
    "snd roles ''msgid'' \<noteq> None \<longrightarrow> msgid_col \<noteq> None"
    "snd roles ''type'' \<noteq> None \<longrightarrow> type_col \<noteq> None"
    unfolding roles_def by (simp_all add: add_role_mapping)
  from m sub fm show ?thesis
    unfolding sender_col_def time_col_def content_col_def msgid_col_def type_col_def by blast
qed

lemma named_column_resolves:
  "''timestamp'' \<in> set columns \<Longrightarrow>
     find_column columns [''msgcreatetime'', ''createtime'', ''timestamp'', ''time''] \<noteq> None"
  "''content'' \<in> set columns \<Longrightarrow>
     find_column columns [''msgcontent'', ''content'', ''message'', ''msg''] \<noteq> None"
  "''message_id'' \<in> set columns \<Longrightarrow>
     find_column columns [''meslocalid'', ''messvrid'', ''msgid'', ''id'', ''localid''] \<noteq> None"
  "''message_type'' \<in> set columns \<Longrightarrow>
     find_column columns [''messagetype'', ''msgtype'', ''type''] \<noteq> None"
proof -
  have a: "str_in (lower ''timestamp'') (lower ''timestamp'')" by code_simp
  have b: "str_in (lower ''content'') (lower ''content'')" by code_simp
  have c: "str_in (lower ''id'') (lower ''message_id'')" by code_simp
  have d: "str_in (lower ''type'') (lower ''message_type'')" by code_simp
  show "''timestamp'' \<in> set columns \<Longrightarrow>
     find_column columns [''msgcreatetime'', ''createtime'', ''timestamp'', ''time''] \<noteq> None"
    by (rule find_column_hit [OF _ _ a]) simp_all
  show "''content'' \<in> set columns \<Longrightarrow>
     find_column columns [''msgcontent'', ''content'', ''message'', ''msg''] \<noteq> None"
    by (rule find_column_hit [OF _ _ b]) simp_all
  show "''message_id'' \<in> set columns \<Longrightarrow>
     find_column columns [''meslocalid'', ''messvrid'', ''msgid'', ''id'', ''localid''] \<noteq> None"
    by (rule find_column_hit [OF _ _ c]) simp_all
  show "''message_type'' \<in> set columns \<Longrightarrow>
     find_column columns [''messagetype'', ''msgtype'', ''type''] \<noteq> None"
    by (rule find_column_hit [OF _ _ d]) simp_all
qed

section \<open>Claim C9: the fields of a record\<close>

text \<open>
  Claim C9, amended: every record that \<^verbatim>\<open>extract_chat_data\<close> produces contains the fields
  \<^verbatim>\<open>database_path\<close>, \<^verbatim>\<open>database_type\<close>, \<^verbatim>\<open>table_name\<close> and \<^verbatim>\<open>extracted_at\<close>; the fields
  \<^verbatim>\<open>timestamp\<close>, \<^verbatim>\<open>content\<close>, \<^verbatim>\<open>message_id\<close> and \<^verbatim>\<open>message_type\<close> are present only if
  \<^verbatim>\<open>_find_column\<close> resolved a column for the role on the table's columns, and \<^verbatim>\<open>sender\<close> is
  present only if a column was resolved for the sender role or the table has a column
  named \<^verbatim>\<open>sender\<close>.
\<close>

theorem extracted_record_fields:
  "m \<in> set (extract_chat_data env conn table_name columns db) \<Longrightarrow>
   {''database_path'', ''database_type'', ''table_name'', ''extracted_at''} \<subseteq> fst ` set m \<and>
   (''sender'' \<in> fst ` set m \<longrightarrow>
      find_column columns [''meslocalid'', ''messvrid'', ''localid''] \<noteq> None \<or>
      ''sender'' \<in> set columns) \<and>
   (''timestamp'' \<in> fst ` set m \<longrightarrow>
      find_column columns [''msgcreatetime'', ''createtime'', ''timestamp'', ''time''] \<noteq> None) \<and>
   (''content'' \<in> fst ` set m \<longrightarrow>
      find_column columns [''msgcontent'', ''content'', ''message'', ''msg''] \<noteq> None) \<and>
   (''message_id'' \<in> fst ` set m \<longrightarrow>
      find_column columns [''meslocalid'', ''messvrid'', ''msgid'', ''id'', ''localid''] \<noteq> None) \<and>
   (''message_type'' \<in> fst ` set m \<longrightarrow>
      find_column columns [''messagetype'', ''msgtype'', ''type''] \<noteq> None)"
proof -
  assume "m \<in> set (extract_chat_data env conn table_name columns db)"
  from extract_chat_data_members [OF this]
  obtain sf fm n_row where m: "m = build_message env db table_name sf fm n_row"
    and sub: "set sf \<subseteq> set columns"
    and s: "fm ''sender'' \<noteq> None \<longrightarrow> find_column columns [''meslocalid'', ''messvrid'', ''localid''] \<noteq> None"
    and t: "fm ''time'' \<noteq> None \<longrightarrow>
        find_column columns [''msgcreatetime'', ''createtime'', ''timestamp'', ''time''] \<noteq> None"
    and c: "fm ''content'' \<noteq> None \<longrightarrow>
        find_column columns [''msgcontent'', ''content'', ''message'', ''msg''] \<noteq> None"
    and i: "fm ''msgid'' \<noteq> None \<longrightarrow>
        find_column columns [''meslocalid'', ''messvrid'', ''msgid'', ''id'', ''localid''] \<noteq> None"
    and ty: "fm ''type'' \<noteq> None \<longrightarrow> find_column columns [''messagetype'', ''msgtype'', ''type''] \<noteq> None"
    by blast
  have base: "{''database_path'', ''database_type'', ''table_name'', ''extracted_at''} \<subseteq> fst ` set m"
    unfolding m by (rule build_message_base_keys)
  have upper: "fst ` set m \<subseteq> {''database_path'', ''database_type'', ''table_name'', ''extracted_at''}
        \<union> set columns \<union> role_keys fm"
    unfolding m using build_message_keys [of env db table_name sf fm n_row] sub by blast
  have k1: "''sender'' \<in> fst ` set m \<Longrightarrow> ''sender'' \<in> set columns \<or> fm ''sender'' \<noteq> None"
    using upper by (auto simp: role_keys_def split: if_splits)
  have k2: "''timestamp'' \<in> fst ` set m \<Longrightarrow> ''timestamp'' \<in> set columns \<or> fm ''time'' \<noteq> None"
    using upper by (auto simp: role_keys_def split: if_splits)
  have k3: "''content'' \<in> fst ` set m \<Longrightarrow> ''content'' \<in> set columns \<or> fm ''content'' \<noteq> None"
    using upper by (auto simp: role_keys_def split: if_splits)
  have k4: "''message_id'' \<in> fst ` set m \<Longrightarrow> ''message_id'' \<in> set columns \<or> fm ''msgid'' \<noteq> None"
    using upper by (auto simp: role_keys_def split: if_splits)
  have k5: "''message_type'' \<in> fst ` set m \<Longrightarrow> ''message_type'' \<in> set columns \<or> fm ''type'' \<noteq> None"
    using upper by (auto simp: role_keys_def split: if_splits)
  have r1: "''sender'' \<in> fst ` set m \<longrightarrow>
      find_column columns [''meslocalid'', ''messvrid'', ''localid''] \<noteq> None \<or>
      ''sender'' \<in> set columns"
    using k1 s by blast
  have r2: "''timestamp'' \<in> fst ` set m \<longrightarrow>
      find_column columns [''msgcreatetime'', ''createtime'', ''timestamp'', ''time''] \<noteq> None"
    using k2 t named_column_resolves(1) [of columns] by blast
  have r3: "''content'' \<in> fst ` set m \<longrightarrow>
      find_column columns [''msgcontent'', ''content'', ''message'', ''msg''] \<noteq> None"
    using k3 c named_column_resolves(2) [of columns] by blast
  have r4: "''message_id'' \<in> fst ` set m \<longrightarrow>
      find_column columns [''meslocalid'', ''messvrid'', ''msgid'', ''id'', ''localid''] \<noteq> None"
    using k4 i named_column_resolves(3) [of columns] by blast
  have r5: "''message_type'' \<in> fst ` set m \<longrightarrow>
      find_column columns [''messagetype'', ''msgtype'', ''type''] \<noteq> None"
    using k5 ty named_column_resolves(4) [of columns] by blast
  show ?thesis
    by (intro conjI) (rule base, rule r1, rule r2, rule r3, rule r4, rule r5)
qed


lemma chat_100_extract:
  "extract_chat_data example_env [(''Chat_100'', chat_100_table)] ''Chat_100''
     [''meslocalid'', ''msgcreatetime'', ''msgcontent''] example_db =
   [chat_100_record ''2025-01-01T00:00:00'' 1 ''2023-11-14T22:13:20'' 1700000000 ''hello'',
    chat_100_record ''2025-01-01T00:00:01'' 2 ''2023-11-14T22:14:20'' 1700000060 ''how are you'',
    chat_100_record ''2025-01-01T00:00:02'' 3 ''2023-11-14T22:15:20'' 1700000120 ''bye'']"
  by code_simp

text \<open>
  Claim C9, as stated, says that a record has the field \<^verbatim>\<open>sender\<close> only if a column was
  resolved for the sender role. A column that no role claims is copied into the record
  under its own name, so a table with the columns \<^verbatim>\<open>sender\<close> and \<^verbatim>\<open>msgtext\<close> yields records
  with a \<^verbatim>\<open>sender\<close> field although \<^verbatim>\<open>_find_column\<close> finds no column for the sender role.
\<close>

theorem sender_passthrough_counterexample:
  "extract_chat_data example_env [(''Chat_9'', sender_table)] ''Chat_9''
     (snd (validate_chat_table [(''Chat_9'', sender_table)] ''Chat_9'')) example_db =
   [[(''database_path'', VText ''/data/Message/msg_0.db''),
     (''database_type'', VText ''Message''),
     (''table_name'', VText ''Chat_9''),
     (''extracted_at'', VText ''2025-01-01T00:00:00''),
     (''content'', VText ''hi''),
     (''sender'', VText ''alice'')]] \<and>
   find_column (snd (validate_chat_table [(''Chat_9'', sender_table)] ''Chat_9''))
     [''meslocalid'', ''messvrid'', ''localid''] = None"
  by code_simp

theorem extracted_record_fields_witness:
  "chat_100_record ''2025-01-01T00:00:00'' 1 ''2023-11-14T22:13:20'' 1700000000 ''hello''
     \<in> set (extract_chat_data example_env [(''Chat_100'', chat_100_table)] ''Chat_100''
          [''meslocalid'', ''msgcreatetime'', ''msgcontent''] example_db) \<and>
   ''sender'' \<in> fst ` set (chat_100_record ''2025-01-01T00:00:00'' 1 ''2023-11-14T22:13:20'' 1700000000 ''hello'') \<and>
   ''timestamp'' \<in> fst ` set (chat_100_record ''2025-01-01T00:00:00'' 1 ''2023-11-14T22:13:20'' 1700000000 ''hello'') \<and>
   find_column [''meslocalid'', ''msgcreatetime'', ''msgcontent'']
     [''msgcreatetime'', ''createtime'', ''timestamp'', ''time''] \<noteq> None"
proof -
  let ?m = "chat_100_record ''2025-01-01T00:00:00'' 1 ''2023-11-14T22:13:20'' 1700000000 ''hello''"
  have mem: "?m \<in> set (extract_chat_data example_env [(''Chat_100'', chat_100_table)] ''Chat_100''
          [''meslocalid'', ''msgcreatetime'', ''msgcontent''] example_db)"
    unfolding chat_100_extract by simp
  have s: "''sender'' \<in> fst ` set ?m" and t: "''timestamp'' \<in> fst ` set ?m"
    by (simp_all add: chat_100_record_def)
  from extracted_record_fields [OF mem] t
  have "find_column [''meslocalid'', ''msgcreatetime'', ''msgcontent'']
     [''msgcreatetime'', ''createtime'', ''timestamp'', ''time''] \<noteq> None" by blast
  with mem s t show ?thesis by blast
qed

section \<open>Claim C1: the end-to-end scenario\<close>

text \<open>
  Claim C1 says that for a database with a table \<^verbatim>\<open>Chat_100\<close> with the columns
  \<^verbatim>\<open>MesLocalID\<close>, \<^verbatim>\<open>MsgCreateTime\<close>, \<^verbatim>\<open>MsgContent\<close> and three rows, extraction yields three
  records, each with \<^verbatim>\<open>sender\<close> and \<^verbatim>\<open>message_id\<close> equal to the row's \<^verbatim>\<open>MesLocalID\<close>, the
  \<^verbatim>\<open>timestamp\<close> from \<^verbatim>\<open>MsgCreateTime\<close> and the \<^verbatim>\<open>content\<close> from \<^verbatim>\<open>MsgContent\<close>. The run of
  \<^verbatim>\<open>extract_all_chats\<close> on this database gives three records with \<^verbatim>\<open>sender\<close>,
  \<^verbatim>\<open>timestamp\<close>, \<^verbatim>\<open>timestamp_raw\<close> and \<^verbatim>\<open>content\<close> as claimed, and none of them has a
  \<^verbatim>\<open>message_id\<close>: the column \<^verbatim>\<open>meslocalid\<close> is selected twice, for the sender and for the
  message id, and both times the \<^verbatim>\<open>elif\<close> chain takes the branch of the sender.
\<close>

theorem chat_100_scenario:
  "extract_all_chats example_env chat_100_world
     ((new_extractor ''.keys'')\<lparr>databases := [example_db]\<rparr>) =
   (None,
    \<lparr>keys_file_path = ''.keys'', databases = [example_db],
      chat_data =
        [chat_100_record ''2025-01-01T00:00:00'' 1 ''2023-11-14T22:13:20'' 1700000000 ''hello'',
         chat_100_record ''2025-01-01T00:00:01'' 2 ''2023-11-14T22:14:20'' 1700000060 ''how are you'',
         chat_100_record ''2025-01-01T00:00:02'' 3 ''2023-11-14T22:15:20'' 1700000120 ''bye''],
      logged = [ConnectAttempt ''/data/Message/msg_0.db'']\<rparr>) \<and>
   map_of (chat_100_record ''2025-01-01T00:00:00'' 1 ''2023-11-14T22:13:20'' 1700000000 ''hello'')
     ''message_id'' = None"
  by code_simp

section \<open>Properties of the orchestration\<close>

lemma rebuild_db_info:
  "map (\<lambda>key_info. \<lparr>path = path key_info, key = key key_info,
          cipher_compatibility = cipher_compatibility key_info, type = type key_info\<rparr>) xs = xs"
  by (induction xs) simp_all

lemma load_keys_databases:
  "read_text fs (keys_file_path self) = Some content \<Longrightarrow>
   load_keys fs self =
     Inr (self\<lparr>databases := databases self @
            filter (\<lambda>d. path_exists fs (path d)) (parse_keys content)\<rparr>)"
  by (simp add: load_keys_def rebuild_db_info)

lemma process_databases_frame:
  "databases (snd (process_databases env w dbs self)) = databases self \<and>
   keys_file_path (snd (process_databases env w dbs self)) = keys_file_path self"
proof (induction dbs arbitrary: self)
  case Nil
  then show ?case by simp
next
  case (Cons db dbs)
  show ?case
  proof (cases "connect_database w db")
    case (Inl e)
    then show ?thesis by simp
  next
    case (Inr c)
    show ?thesis
    proof (cases c)
      case None
      with Inr show ?thesis by (simp add: Cons.IH)
    next
      case (Some conn)
      with Inr show ?thesis by (simp add: Cons.IH Let_def)
    qed
  qed
qed

lemma process_databases_logged:
  "set (logged (snd (process_databases env w dbs self)))
     \<subseteq> set (logged self) \<union> (\<lambda>d. ConnectAttempt (path d)) ` set dbs"
proof (induction dbs arbitrary: self)
  case Nil
  then show ?case by simp
next
  case (Cons db dbs)
  let ?self1 = "self\<lparr>logged := logged self @ [ConnectAttempt (path db)]\<rparr>"
  have l1: "set (logged ?self1) \<subseteq> set (logged self) \<union> (\<lambda>d. ConnectAttempt (path d)) ` set (db # dbs)"
    by auto
  show ?case
  proof (cases "connect_database w db")
    case (Inl e)
    then show ?thesis using l1 by simp
  next
    case (Inr c)
    show ?thesis
    proof (cases c)
      case None
      have "set (logged (snd (process_databases env w dbs ?self1)))
          \<subseteq> set (logged ?self1) \<union> (\<lambda>d. ConnectAttempt (path d)) ` set dbs"
        by (rule Cons.IH)
      with l1 Inr None show ?thesis by auto
    next
      case (Some conn)
      let ?self2 = "?self1\<lparr>chat_data := process_tables env conn db
          (find_chat_tables (get_table_names conn)) (chat_data ?self1)\<rparr>"
      have a: "set (logged (snd (process_databases env w dbs ?self1)))
          \<subseteq> set (logged ?self1) \<union> (\<lambda>d. ConnectAttempt (path d)) ` set dbs"
        by (rule Cons.IH)
      have b: "set (logged (snd (process_databases env w dbs ?self2)))
          \<subseteq> set (logged ?self2) \<union> (\<lambda>d. ConnectAttempt (path d)) ` set dbs"
        by (rule Cons.IH)
      have c: "logged ?self2 = logged ?self1" by simp
      show ?thesis
      proof (cases "find_chat_tables (get_table_names conn) = []")
        case True
        with Inr Some a l1 show ?thesis by auto
      next
        case False
        with Inr Some b c l1 show ?thesis by (auto simp: Let_def)
      qed
    qed
  qed
qed

lemma extract_all_chats_frame:
  "databases (snd (extract_all_chats env w self)) = databases self"
  unfolding extract_all_chats_def Let_def using process_databases_frame by blast

lemma extract_all_chats_logged:
  "set (logged (snd (extract_all_chats env w self)))
     \<subseteq> set (logged self) \<union> (\<lambda>d. ConnectAttempt (path d)) ` set (databases self)"
proof -
  have "set (logged (snd (extract_all_chats env w self)))
     \<subseteq> set (logged self) \<union> (\<lambda>d. ConnectAttempt (path d)) `
         set (filter (\<lambda>db. type db = ''Message'') (databases self) @
              filter (\<lambda>db. type db \<noteq> ''Message'') (databases self))"
    unfolding extract_all_chats_def Let_def by (rule process_databases_logged)
  then show ?thesis by auto
qed


lemma run_final:
  assumes "read_text fs keys_file = Some content"
  shows "\<exists>self2 ev.
     final (run env fs w output_path (new_extractor keys_file)) = add_log ev self2 \<and>
     (\<forall>p. ev \<noteq> ConnectAttempt p) \<and>
     databases self2 = filter (\<lambda>d. path_exists fs (path d)) (parse_keys content) \<and>
     set (logged self2) \<subseteq> (\<lambda>d. ConnectAttempt (path d)) `
        set (filter (\<lambda>d. path_exists fs (path d)) (parse_keys content)) \<and>
     (\<forall>out. written (run env fs w output_path (new_extractor keys_file)) = Some out \<longrightarrow>
        total_databases out = length (filter (\<lambda>d. path_exists fs (path d)) (parse_keys content)))"
proof -
  define D where "D = filter (\<lambda>d. path_exists fs (path d)) (parse_keys content)"
  define self1 where "self1 = (new_extractor keys_file)\<lparr>databases := D\<rparr>"
  have l: "load_keys fs (new_extractor keys_file) = Inr self1"
    using load_keys_databases [of fs "new_extractor keys_file" content] assms
    by (simp add: new_extractor_def self1_def D_def)
  have d1: "databases self1 = D" and l1: "logged self1 = []"
    by (simp_all add: self1_def new_extractor_def)
  show ?thesis
  proof (cases "D = []")
    case True
    then have "run env fs w output_path (new_extractor keys_file) =
        \<lparr>raised = None, written = None, final = add_log NoValidDatabase self1\<rparr>"
      by (simp add: run_def l d1)
    then show ?thesis using d1 l1 True unfolding D_def [symmetric] by auto
  next
    case False
    obtain e self2 where x: "extract_all_chats env w self1 = (e, self2)"
      by (cases "extract_all_chats env w self1")
    have d2: "databases self2 = D"
      using extract_all_chats_frame [of env w self1] x d1 by simp
    have l2: "set (logged self2) \<subseteq> (\<lambda>d. ConnectAttempt (path d)) ` set D"
      using extract_all_chats_logged [of env w self1] x d1 l1 by simp
    have r: "run env fs w output_path (new_extractor keys_file) =
        (case e of
           Some ex \<Rightarrow> \<lparr>raised = Some ex, written = None, final = add_log RunFailed self2\<rparr>
         | None \<Rightarrow>
             if chat_data self2 = [] then
               \<lparr>raised = None, written = None, final = add_log NoChatRecords self2\<rparr>
             else
               (case save_to_json env fs output_path self2 of
                  Inl ex \<Rightarrow> \<lparr>raised = Some ex, written = None, final = add_log RunFailed self2\<rparr>
                | Inr out \<Rightarrow> \<lparr>raised = None, written = Some out,
                     final = add_log (SavedTo output_path) self2\<rparr>))"
      using False by (simp add: run_def l d1 x)
    have s: "save_to_json env fs output_path self2 = Inr out \<Longrightarrow> total_databases out = length D"
      for out
      using d2 by (auto simp add: save_to_json_def split: if_splits)
    show ?thesis
    proof (cases e)
      case (Some ex)
      with r d2 l2 show ?thesis unfolding D_def [symmetric] by auto
    next
      case None
      show ?thesis
      proof (cases "chat_data self2 = []")
        case True
        with None r d2 l2 show ?thesis unfolding D_def [symmetric] by auto
      next
        case False
        show ?thesis
        proof (cases "save_to_json env fs output_path self2")
          case (Inl ex)
          with None False r d2 l2 show ?thesis unfolding D_def [symmetric] by auto
        next
          case (Inr out)
          with None False r d2 l2 s [OF Inr] show ?thesis unfolding D_def [symmetric] by auto
        qed
      qed
    qed
  qed
qed

section \<open>Claim C10: descriptors of missing database files\<close>

lemma example_parse_existing:
  "filter (\<lambda>d. path_exists (keys_fs two_db_keys_text [''/data/Message/msg_0.db'']) (path d))
     (parse_keys two_db_keys_text) = [example_db]"
  by code_simp

text \<open>
  Claim C10: after \<^verbatim>\<open>load_keys\<close> the database list holds exactly the parsed descriptors whose
  path exists, in their order; every connection attempt of the run is for a path that
  exists; and \<^verbatim>\<open>total_databases\<close> of a written output is the number of descriptors whose file
  existed.
\<close>

theorem missing_databases_excluded:
  "read_text fs keys_file = Some content \<Longrightarrow>
   databases (final (run env fs w output_path (new_extractor keys_file))) =
     filter (\<lambda>d. path_exists fs (path d)) (parse_keys content) \<and>
   (\<forall>p. ConnectAttempt p \<in> set (logged (final (run env fs w output_path (new_extractor keys_file))))
      \<longrightarrow> path_exists fs p \<and> p \<in> path ` set (parse_keys content)) \<and>
   (\<forall>out. written (run env fs w output_path (new_extractor keys_file)) = Some out \<longrightarrow>
      total_databases out = length (filter (\<lambda>d. path_exists fs (path d)) (parse_keys content)))"
proof -
  assume a: "read_text fs keys_file = Some content"
  from run_final [OF a, of env w output_path]
  obtain self2 ev where f: "final (run env fs w output_path (new_extractor keys_file)) = add_log ev self2"
    and ev: "\<forall>p. ev \<noteq> ConnectAttempt p"
    and d: "databases self2 = filter (\<lambda>d. path_exists fs (path d)) (parse_keys content)"
    and l: "set (logged self2) \<subseteq> (\<lambda>d. ConnectAttempt (path d)) `
        set (filter (\<lambda>d. path_exists fs (path d)) (parse_keys content))"
    and t: "\<forall>out. written (run env fs w output_path (new_extractor keys_file)) = Some out \<longrightarrow>
        total_databases out = length (filter (\<lambda>d. path_exists fs (path d)) (parse_keys content))"
    by blast
  have c1: "databases (final (run env fs w output_path (new_extractor keys_file))) =
     filter (\<lambda>d. path_exists fs (path d)) (parse_keys content)"
    unfolding f using d by (simp add: add_log_def)
  have c2: "\<forall>p. ConnectAttempt p \<in> set (logged (final (run env fs w output_path (new_extractor keys_file))))
      \<longrightarrow> path_exists fs p \<and> p \<in> path ` set (parse_keys content)"
  proof (intro allI impI)
    fix p
    assume "ConnectAttempt p \<in> set (logged (final (run env fs w output_path (new_extractor keys_file))))"
    then have "ConnectAttempt p \<in> set (logged self2)"
      unfolding f using ev by (auto simp add: add_log_def)
    with l obtain d where "d \<in> set (filter (\<lambda>d. path_exists fs (path d)) (parse_keys content))"
      and "ConnectAttempt p = ConnectAttempt (path d)" by blast
    then show "path_exists fs p \<and> p \<in> path ` set (parse_keys content)" by auto
  qed
  show ?thesis
    by (intro conjI) (rule c1, rule c2, rule t)
qed

lemma chat_100_run:
  "run example_env (keys_fs two_db_keys_text [''/data/Message/msg_0.db'']) chat_100_world ''out.json''
     (new_extractor ''.keys'') =
   \<lparr>raised = None,
    written = Some
      \<lparr>extracted_at = ''2025-01-01T00:01:00'', total_messages = 3, total_databases = 1,
       source_keys_file = ''.keys'',
       messages =
        [chat_100_record ''2025-01-01T00:00:00'' 1 ''2023-11-14T22:13:20'' 1700000000 ''hello'',
         chat_100_record ''2025-01-01T00:00:01'' 2 ''2023-11-14T22:14:20'' 1700000060 ''how are you'',
         chat_100_record ''2025-01-01T00:00:02'' 3 ''2023-11-14T22:15:20'' 1700000120 ''bye'']\<rparr>,
    final =
      \<lparr>keys_file_path = ''.keys'', databases = [example_db],
       chat_data =
        [chat_100_record ''2025-01-01T00:00:00'' 1 ''2023-11-14T22:13:20'' 1700000000 ''hello'',
         chat_100_record ''2025-01-01T00:00:01'' 2 ''2023-11-14T22:14:20'' 1700000060 ''how are you'',
         chat_100_record ''2025-01-01T00:00:02'' 3 ''2023-11-14T22:15:20'' 1700000120 ''bye''],
       logged = [ConnectAttempt ''/data/Message/msg_0.db'', SavedTo ''out.json'']\<rparr>\<rparr>"
  by code_simp

theorem missing_databases_excluded_witness:
  "read_text (keys_fs two_db_keys_text [''/data/Message/msg_0.db'']) ''.keys'' = Some two_db_keys_text \<and>
   length (parse_keys two_db_keys_text) = 2 \<and>
   databases (final (run example_env (keys_fs two_db_keys_text [''/data/Message/msg_0.db''])
     chat_100_world ''out.json'' (new_extractor ''.keys''))) = [example_db] \<and>
   ConnectAttempt ''/data/Message/msg_0.db'' \<in> set (logged (final (run example_env
     (keys_fs two_db_keys_text [''/data/Message/msg_0.db'']) chat_100_world ''out.json''
     (new_extractor ''.keys'')))) \<and>
   path_exists (keys_fs two_db_keys_text [''/data/Message/msg_0.db'']) ''/data/Message/msg_0.db'' \<and>
   map_option total_databases (written (run example_env
     (keys_fs two_db_keys_text [''/data/Message/msg_0.db'']) chat_100_world ''out.json''
     (new_extractor ''.keys''))) = Some 1"
proof -
  have r: "read_text (keys_fs two_db_keys_text [''/data/Message/msg_0.db'']) ''.keys'' = Some two_db_keys_text"
    by (simp add: keys_fs_def)
  have n: "length (parse_keys two_db_keys_text) = 2" by code_simp
  note t = missing_databases_excluded [OF r, of example_env chat_100_world "''out.json''"]
  note t1 = t [THEN conjunct1]
  note t2 = t [THEN conjunct2, THEN conjunct1, THEN spec, of "''/data/Message/msg_0.db''"]
  have c1: "databases (final (run example_env (keys_fs two_db_keys_text [''/data/Message/msg_0.db''])
     chat_100_world ''out.json'' (new_extractor ''.keys''))) = [example_db]"
    using t1 unfolding example_parse_existing .
  have c2: "ConnectAttempt ''/data/Message/msg_0.db'' \<in> set (logged (final (run example_env
     (keys_fs two_db_keys_text [''/data/Message/msg_0.db'']) chat_100_world ''out.json''
     (new_extractor ''.keys''))))"
    unfolding chat_100_run by simp
  from t2 c2 have c3: "path_exists (keys_fs two_db_keys_text [''/data/Message/msg_0.db''])
      ''/data/Message/msg_0.db''" by blast
  have c4: "map_option total_databases (written (run example_env
     (keys_fs two_db_keys_text [''/data/Message/msg_0.db'']) chat_100_world ''out.json''
     (new_extractor ''.keys''))) = Some 1"
    unfolding chat_100_run by simp
  show ?thesis
    by (intro conjI) (rule r, rule n, rule c1, rule c2, rule c3, rule c4)
qed

section \<open>Claim C3: exit behaviour\<close>

lemma main_of_run:
  "path_exists fs keys_file \<Longrightarrow>
   raised (run env fs w output_path (new_extractor keys_file)) = None \<Longrightarrow>
   main env fs w keys_file output_path =
     \<lparr>exit_code = 0,
      output_file = written (run env fs w output_path (new_extractor keys_file)),
      main_log = logged (final (run env fs w output_path (new_extractor keys_file))) @ [ExtractionDone]\<rparr>"
  by (simp add: main_def Let_def)

text \<open>
  Claim C3, as stated, says that a readable key file that yields no usable database
  descriptor ends the run as a fatal error, a failure outcome distinct from success. With an
  empty key file \<^verbatim>\<open>run\<close> logs an error and returns, \<^verbatim>\<open>main\<close> logs its closing success line, and
  the process ends with status 0.
\<close>

theorem empty_key_file_counterexample:
  "path_exists (keys_fs [] []) ''.keys'' \<and>
   read_text (keys_fs [] []) ''.keys'' = Some [] \<and>
   parse_keys [] = [] \<and>
   main example_env (keys_fs [] []) chat_100_world ''.keys'' ''out.json'' =
     \<lparr>exit_code = 0, output_file = None, main_log = [NoValidDatabase, ExtractionDone]\<rparr> \<and>
   \<not> fatal (main example_env (keys_fs [] []) chat_100_world ''.keys'' ''out.json'')"
  by code_simp

text \<open>
  Claim C3, amended: if the key file is readable and yields no descriptor whose database
  file exists, the run logs an error, extracts nothing, writes no output and ends normally:
  \<^verbatim>\<open>main\<close> logs its closing line and the exit status is 0, as on success. If at least one
  database was loaded and the extraction returns with zero records, the run logs a
  warning, writes no output and ends with exit status 0 as well.
\<close>

theorem no_database_is_not_fatal:
  "path_exists fs keys_file \<Longrightarrow> read_text fs keys_file = Some content \<Longrightarrow>
   (filter (\<lambda>d. path_exists fs (path d)) (parse_keys content) = [] \<longrightarrow>
      main env fs w keys_file output_path =
        \<lparr>exit_code = 0, output_file = None, main_log = [NoValidDatabase, ExtractionDone]\<rparr>) \<and>
   (filter (\<lambda>d. path_exists fs (path d)) (parse_keys content) \<noteq> [] \<and>
    extract_all_chats env w ((new_extractor keys_file)
      \<lparr>databases := filter (\<lambda>d. path_exists fs (path d)) (parse_keys content)\<rparr>) = (None, self2) \<and>
    chat_data self2 = [] \<longrightarrow>
      main env fs w keys_file output_path =
        \<lparr>exit_code = 0, output_file = None,
         main_log = logged self2 @ [NoChatRecords, ExtractionDone]\<rparr>) \<and>
   level NoValidDatabase = ERROR \<and> level NoChatRecords = WARNING \<and> level ExtractionDone = INFO"
proof -
  assume e: "path_exists fs keys_file" and a: "read_text fs keys_file = Some content"
  define D where "D = filter (\<lambda>d. path_exists fs (path d)) (parse_keys content)"
  define self1 where "self1 = (new_extractor keys_file)\<lparr>databases := D\<rparr>"
  have l: "load_keys fs (new_extractor keys_file) = Inr self1"
    using load_keys_databases [of fs "new_extractor keys_file" content] a
    by (simp add: new_extractor_def self1_def D_def)
  have d1: "databases self1 = D" and l1: "logged self1 = []"
    by (simp_all add: self1_def new_extractor_def)
  have c1: "D = [] \<longrightarrow> main env fs w keys_file output_path =
        \<lparr>exit_code = 0, output_file = None, main_log = [NoValidDatabase, ExtractionDone]\<rparr>"
  proof
    assume "D = []"
    then have r: "run env fs w output_path (new_extractor keys_file) =
        \<lparr>raised = None, written = None, final = add_log NoValidDatabase self1\<rparr>"
      by (simp add: run_def l d1)
    have "raised (run env fs w output_path (new_extractor keys_file)) = None"
      unfolding r by simp
    from main_of_run [OF e this] show "main env fs w keys_file output_path =
        \<lparr>exit_code = 0, output_file = None, main_log = [NoValidDatabase, ExtractionDone]\<rparr>"
      unfolding r by (simp add: add_log_def l1)
  qed
  have c2: "D \<noteq> [] \<and> extract_all_chats env w self1 = (None, self2) \<and> chat_data self2 = [] \<longrightarrow>
      main env fs w keys_file output_path =
        \<lparr>exit_code = 0, output_file = None,
         main_log = logged self2 @ [NoChatRecords, ExtractionDone]\<rparr>"
  proof
    assume h: "D \<noteq> [] \<and> extract_all_chats env w self1 = (None, self2) \<and> chat_data self2 = []"
    then have r: "run env fs w output_path (new_extractor keys_file) =
        \<lparr>raised = None, written = None, final = add_log NoChatRecords self2\<rparr>"
      by (simp add: run_def l d1)
    have "raised (run env fs w output_path (new_extractor keys_file)) = None"
      unfolding r by simp
    from main_of_run [OF e this] show "main env fs w keys_file output_path =
        \<lparr>exit_code = 0, output_file = None,
         main_log = logged self2 @ [NoChatRecords, ExtractionDone]\<rparr>"
      unfolding r by (simp add: add_log_def)
  qed
  show ?thesis
    using c1 c2 unfolding D_def self1_def by simp
qed


lemma contact_extract:
  "extract_all_chats example_env (\<lambda>p. contact_file)
     ((new_extractor ''.keys'')\<lparr>databases :=
        filter (\<lambda>d. path_exists (keys_fs example_keys_text [''/d/Contact/wccontact.db'']) (path d))
          (parse_keys example_keys_text)\<rparr>) =
   (None,
    \<lparr>keys_file_path = ''.keys'',
      databases = [\<lparr>path = ''/d/Contact/wccontact.db'',
         key = ''x'' @ [CHR 0x27] @ ''ab12'' @ [CHR 0x27], cipher_compatibility = 3,
         type = ''Contact''\<rparr>],
      chat_data = [], logged = [ConnectAttempt ''/d/Contact/wccontact.db'']\<rparr>)"
  by code_simp

lemma contact_existing:
  "filter (\<lambda>d. path_exists (keys_fs example_keys_text [''/d/Contact/wccontact.db'']) (path d))
     (parse_keys example_keys_text) \<noteq> []"
  by code_simp

theorem no_database_is_not_fatal_witness:
  "main example_env (keys_fs [] []) chat_100_world ''.keys'' ''out.json'' =
     \<lparr>exit_code = 0, output_file = None, main_log = [NoValidDatabase, ExtractionDone]\<rparr> \<and>
   main example_env (keys_fs example_keys_text [''/d/Contact/wccontact.db'']) (\<lambda>p. contact_file)
       ''.keys'' ''out.json'' =
     \<lparr>exit_code = 0, output_file = None,
      main_log = [ConnectAttempt ''/d/Contact/wccontact.db'', NoChatRecords, ExtractionDone]\<rparr>"
proof
  have e: "path_exists (keys_fs [] []) ''.keys''" by (simp add: keys_fs_def)
  have r: "read_text (keys_fs [] []) ''.keys'' = Some []" by (simp add: keys_fs_def)
  have p: "filter (\<lambda>d. path_exists (keys_fs [] []) (path d)) (parse_keys []) = []" by code_simp
  from no_database_is_not_fatal [OF e r, THEN conjunct1] p
  show "main example_env (keys_fs [] []) chat_100_world ''.keys'' ''out.json'' =
     \<lparr>exit_code = 0, output_file = None, main_log = [NoValidDatabase, ExtractionDone]\<rparr>"
    by (rule mp)
next
  let ?fs = "keys_fs example_keys_text [''/d/Contact/wccontact.db'']"
  let ?self2 = "\<lparr>keys_file_path = ''.keys'',
      databases = [\<lparr>path = ''/d/Contact/wccontact.db'',
         key = ''x'' @ [CHR 0x27] @ ''ab12'' @ [CHR 0x27], cipher_compatibility = 3,
         type = ''Contact''\<rparr>],
      chat_data = [], logged = [ConnectAttempt ''/d/Contact/wccontact.db'']\<rparr>"
  have e: "path_exists ?fs ''.keys''" by (simp add: keys_fs_def)
  have r: "read_text ?fs ''.keys'' = Some example_keys_text" by (simp add: keys_fs_def)
  have c: "chat_data ?self2 = []" by simp
  note t = no_database_is_not_fatal [OF e r, where env = example_env and w = "\<lambda>p. contact_file"
      and ?self2.0 = ?self2 and output_path = "''out.json''", THEN conjunct2, THEN conjunct1]
  from t contact_existing contact_extract c
  have "main example_env ?fs (\<lambda>p. contact_file) ''.keys'' ''out.json'' =
     \<lparr>exit_code = 0, output_file = None, main_log = logged ?self2 @ [NoChatRecords, ExtractionDone]\<rparr>"
    by blast
  then show "main example_env ?fs (\<lambda>p. contact_file) ''.keys'' ''out.json'' =
     \<lparr>exit_code = 0, output_file = None,
      main_log = [ConnectAttempt ''/d/Contact/wccontact.db'', NoChatRecords, ExtractionDone]\<rparr>"
    by simp
qed

section \<open>Claim C8: failures of one database\<close>

lemma wrong_key_main:
  "main example_env (keys_fs two_db_keys_text [''/data/Message/msg_1.db'', ''/data/Message/msg_0.db''])
       (two_db_world wrong_key_file) ''.keys'' ''out.json'' =
     \<lparr>exit_code = 0,
      output_file = Some
        \<lparr>extracted_at = ''2025-01-01T00:01:00'', total_messages = 3, total_databases = 2,
         source_keys_file = ''.keys'',
         messages =
          [chat_100_record ''2025-01-01T00:00:00'' 1 ''2023-11-14T22:13:20'' 1700000000 ''hello'',
           chat_100_record ''2025-01-01T00:00:01'' 2 ''2023-11-14T22:14:20'' 1700000060 ''how are you'',
           chat_100_record ''2025-01-01T00:00:02'' 3 ''2023-11-14T22:15:20'' 1700000120 ''bye'']\<rparr>,
      main_log =
        [ConnectAttempt ''/data/Message/msg_1.db'', ConnectAttempt ''/data/Message/msg_0.db'',
         SavedTo ''out.json'', ExtractionDone]\<rparr>"
  by code_simp

lemma unopenable_main:
  "main example_env (keys_fs two_db_keys_text [''/data/Message/msg_1.db'', ''/data/Message/msg_0.db''])
       (two_db_world closed_file) ''.keys'' ''out.json'' =
     \<lparr>exit_code = 1, output_file = None,
      main_log = [ConnectAttempt ''/data/Message/msg_1.db'', RunFailed, ExtractionFailed]\<rparr>"
  by code_simp

lemma unopenable_connect:
  "connect_database (two_db_world closed_file)
     \<lparr>path = ''/data/Message/msg_1.db'', key = ''x'' @ [CHR 0x27] @ ''cd34'' @ [CHR 0x27],
      cipher_compatibility = 3, type = ''Message''\<rparr> = Inl UnboundLocalError"
  by code_simp

text \<open>
  Claim C8 says that a connection failure of one database does not prevent processing of
  the next ones and that no error of a single database aborts the run. When every key
  encoding fails the probe, \<^verbatim>\<open>connect_database\<close> returns \<^verbatim>\<open>None\<close> and the run goes on: with
  such a first database the second one is extracted and the output is written. When
  \<^verbatim>\<open>sqlite.connect\<close> itself raises for the first database (the path exists and is not a file
  SQLite can open), the \<^verbatim>\<open>except\<close> clause reads the unbound variable \<^verbatim>\<open>conn\<close>; the
  \<^verbatim>\<open>UnboundLocalError\<close> leaves \<^verbatim>\<open>connect_database\<close>, \<^verbatim>\<open>extract_all_chats\<close> and \<^verbatim>\<open>run\<close>; the
  second database is never tried, nothing is written and the exit status is 1.
\<close>

theorem unopenable_database_aborts_run:
  "connect_database (two_db_world closed_file)
     \<lparr>path = ''/data/Message/msg_1.db'', key = ''x'' @ [CHR 0x27] @ ''cd34'' @ [CHR 0x27],
      cipher_compatibility = 3, type = ''Message''\<rparr> = Inl UnboundLocalError \<and>
   main example_env (keys_fs two_db_keys_text [''/data/Message/msg_1.db'', ''/data/Message/msg_0.db''])
       (two_db_world closed_file) ''.keys'' ''out.json'' =
     \<lparr>exit_code = 1, output_file = None,
      main_log = [ConnectAttempt ''/data/Message/msg_1.db'', RunFailed, ExtractionFailed]\<rparr> \<and>
   exit_code (main example_env
       (keys_fs two_db_keys_text [''/data/Message/msg_1.db'', ''/data/Message/msg_0.db''])
       (two_db_world wrong_key_file) ''.keys'' ''out.json'') = 0 \<and>
   map_option total_messages (output_file (main example_env
       (keys_fs two_db_keys_text [''/data/Message/msg_1.db'', ''/data/Message/msg_0.db''])
       (two_db_world wrong_key_file) ''.keys'' ''out.json'')) = Some 3 \<and>
   main_log (main example_env
       (keys_fs two_db_keys_text [''/data/Message/msg_1.db'', ''/data/Message/msg_0.db''])
       (two_db_world wrong_key_file) ''.keys'' ''out.json'') =
     [ConnectAttempt ''/data/Message/msg_1.db'', ConnectAttempt ''/data/Message/msg_0.db'',
      SavedTo ''out.json'', ExtractionDone]"
  unfolding wrong_key_main unopenable_main unopenable_connect by simp

section \<open>Claim C7: key encodings tried by \<^verbatim>\<open>connect_database\<close>\<close>

lemma try_key_formats_openable:
  "db_openable f \<Longrightarrow> try_key_formats f cc b ks = Inr (first_accepted f cc ks)"
  by (induction ks arbitrary: b) simp_all

lemma key_format_attempts_openable:
  "db_openable f \<Longrightarrow> key_format_attempts f cc b ks = attempts_until_accepted f cc ks"
  by (induction ks arbitrary: b) simp_all

lemma first_accepted_None:
  "first_accepted f cc ks = None \<longleftrightarrow> (\<forall>k \<in> set ks. \<not> db_accepts f k cc)"
  by (induction ks) simp_all

lemma first_accepted_Some:
  "first_accepted f cc ks = Some c \<Longrightarrow>
   c = db_tables f \<and>
   (\<exists>before k after. ks = before @ k # after \<and> db_accepts f k cc \<and>
      (\<forall>k' \<in> set before. \<not> db_accepts f k' cc))"
proof (induction ks)
  case Nil
  then show ?case by simp
next
  case (Cons a ks)
  show ?case
  proof (cases "db_accepts f a cc")
    case True
    with Cons.prems have c: "c = db_tables f" by simp
    have "a # ks = [] @ a # ks" and "\<forall>k' \<in> set []. \<not> db_accepts f k' cc" by simp_all
    with c True show ?thesis by blast
  next
    case False
    with Cons.prems have "first_accepted f cc ks = Some c" by simp
    from Cons.IH [OF this] obtain before k after where c: "c = db_tables f"
      and ks: "ks = before @ k # after" and k: "db_accepts f k cc"
      and b: "\<forall>k' \<in> set before. \<not> db_accepts f k' cc" by blast
    have "a # ks = (a # before) @ k # after" using ks by simp
    moreover have "\<forall>k' \<in> set (a # before). \<not> db_accepts f k' cc" using b False by simp
    ultimately show ?thesis using c k by blast
  qed
qed

lemma wrapped_key_hex: "drop 2 (butlast (''x'' @ [CHR 0x27] @ H @ [CHR 0x27])) = H"
  by (simp add: butlast_append)

text \<open>
  SQLite does not accept a blob literal as the value of a \<^verbatim>\<open>PRAGMA\<close>: no database opens
  under an unquoted key text that starts with \<^verbatim>\<open>x'\<close>. For every such database that
  \<^verbatim>\<open>sqlite.connect\<close> can open, \<^verbatim>\<open>connect_database\<close> returns what the claimed list of encodings
  gives.
\<close>

lemma connect_database_result_as_claimed:
  assumes o: "db_openable (w (path db))"
    and x: "\<forall>k. startswith k (''x'' @ [CHR 0x27]) \<longrightarrow>
       \<not> db_accepts (w (path db)) k (cipher_compatibility db)"
  shows "connect_database w db = Inr (claimed_connect w db)"
proof -
  have c: "connect_database w db =
     Inr (first_accepted (w (path db)) (cipher_compatibility db) (key_formats (key db)))"
    unfolding connect_database_def by (rule try_key_formats_openable [OF o])
  show ?thesis
  proof (cases "startswith (key db) (''x'' @ [CHR 0x27]) \<and> endswith (key db) [CHR 0x27]")
    case True
    have s: "startswith (''x'' @ [CHR 0x27] @ drop 2 (butlast (key db)) @ [CHR 0x27]) (''x'' @ [CHR 0x27])"
      by (simp add: startswith_def)
    from x s have r1: "\<not> db_accepts (w (path db))
        (''x'' @ [CHR 0x27] @ drop 2 (butlast (key db)) @ [CHR 0x27]) (cipher_compatibility db)"
      by blast
    from x True have r2: "\<not> db_accepts (w (path db)) (key db) (cipher_compatibility db)"
      by blast
    have kf: "key_formats (key db) =
        [''x'' @ [CHR 0x27] @ drop 2 (butlast (key db)) @ [CHR 0x27], key db,
         [CHR 0x22] @ key db @ [CHR 0x22], drop 2 (butlast (key db))]"
      using True by (auto simp add: key_formats_def Let_def)
    have ce: "claimed_key_encodings (key db) =
        [key db, drop 2 (butlast (key db)), [CHR 0x22] @ key db @ [CHR 0x22],
         drop 2 (butlast (key db))]"
      using True by (auto simp add: claimed_key_encodings_def claimed_strip_markers_def)
    show ?thesis
      unfolding c claimed_connect_def kf ce using r1 r2 by simp
  next
    case False
    have "startswith (''x'' @ [CHR 0x27] @ key db @ [CHR 0x27]) (''x'' @ [CHR 0x27])"
      by (simp add: startswith_def)
    with x have r: "\<not> db_accepts (w (path db))
        (''x'' @ [CHR 0x27] @ key db @ [CHR 0x27]) (cipher_compatibility db)"
      by blast
    have kf: "key_formats (key db) =
        [key db, [CHR 0x22] @ key db @ [CHR 0x22], ''x'' @ [CHR 0x27] @ key db @ [CHR 0x27]]"
      using False by (auto simp add: key_formats_def Let_def)
    have ce: "claimed_key_encodings (key db) =
        [key db, key db, [CHR 0x22] @ key db @ [CHR 0x22], key db]"
      using False by (auto simp add: claimed_key_encodings_def claimed_strip_markers_def)
    show ?thesis
      unfolding c claimed_connect_def kf ce using r by simp
  qed
qed

text \<open>
  Claim C7, as stated, gives the order in which \<^verbatim>\<open>connect_database\<close> attempts the key
  encodings: the key as given, the key stripped of wrapping markers, a quoted form and a
  bare-hex form. The attempts of the code are others. For the key \<^verbatim>\<open>x'ab12'\<close> and a database
  that opens under the quoted raw key, the code tries \<^verbatim>\<open>x'ab12'\<close> twice and then the quoted
  key; it does not try the bare \<^verbatim>\<open>ab12\<close> second. For the key \<^verbatim>\<open>abc\<close> and a database that opens
  under no key, the code makes three attempts, the last with \<^verbatim>\<open>x'abc'\<close>, which is none of
  the claimed forms.
\<close>

theorem attempt_order_counterexample:
  "connect_attempts (\<lambda>p. quoted_key_file) example_db =
     [''x'' @ [CHR 0x27] @ ''ab12'' @ [CHR 0x27],
      ''x'' @ [CHR 0x27] @ ''ab12'' @ [CHR 0x27],
      [CHR 0x22] @ ''x'' @ [CHR 0x27] @ ''ab12'' @ [CHR 0x27, CHR 0x22]] \<and>
   claimed_attempts (\<lambda>p. quoted_key_file) example_db =
     [''x'' @ [CHR 0x27] @ ''ab12'' @ [CHR 0x27],
      ''ab12'',
      [CHR 0x22] @ ''x'' @ [CHR 0x27] @ ''ab12'' @ [CHR 0x27, CHR 0x22]] \<and>
   connect_attempts (\<lambda>p. quoted_key_file) example_db \<noteq>
     claimed_attempts (\<lambda>p. quoted_key_file) example_db \<and>
   connect_attempts (\<lambda>p. wrong_key_file) plain_key_db =
     [''abc'', [CHR 0x22] @ ''abc'' @ [CHR 0x22], ''x'' @ [CHR 0x27] @ ''abc'' @ [CHR 0x27]] \<and>
   claimed_attempts (\<lambda>p. wrong_key_file) plain_key_db =
     [''abc'', ''abc'', [CHR 0x22] @ ''abc'' @ [CHR 0x22], ''abc''] \<and>
   connect_attempts (\<lambda>p. wrong_key_file) plain_key_db \<noteq>
     claimed_attempts (\<lambda>p. wrong_key_file) plain_key_db"
  by code_simp

text \<open>
  Claim C7, amended: for every database descriptor whose file \<^verbatim>\<open>sqlite.connect\<close> can open,
  \<^verbatim>\<open>connect_database\<close> attempts the encodings of its list \<^verbatim>\<open>key_formats\<close> in order up to
  the first one under which the probe query succeeds, returns the connection for that
  encoding, and returns \<^verbatim>\<open>None\<close> exactly when the probe fails under all of them. For a key
  that starts with \<^verbatim>\<open>x'\<close> and ends with \<^verbatim>\<open>'\<close>, with \<open>H\<close> the text between, the encodings
  are \<^verbatim>\<open>x'H'\<close>, the key as given, the key in double quotes and \<open>H\<close>; for any other key
  \<open>K\<close> they are \<open>K\<close>, \<open>K\<close> in double quotes and \<^verbatim>\<open>x'K'\<close>.
\<close>

theorem connect_database_first_success:
  "db_openable (w (path db)) \<Longrightarrow>
   connect_attempts w db =
     attempts_until_accepted (w (path db)) (cipher_compatibility db) (key_formats (key db)) \<and>
   connect_database w db =
     Inr (first_accepted (w (path db)) (cipher_compatibility db) (key_formats (key db))) \<and>
   (connect_database w db = Inr None \<longleftrightarrow>
      (\<forall>k \<in> set (key_formats (key db)). \<not> db_accepts (w (path db)) k (cipher_compatibility db))) \<and>
   (\<forall>c. connect_database w db = Inr (Some c) \<longrightarrow>
      c = db_tables (w (path db)) \<and>
      (\<exists>before k after. key_formats (key db) = before @ k # after \<and>
         db_accepts (w (path db)) k (cipher_compatibility db) \<and>
         (\<forall>k' \<in> set before. \<not> db_accepts (w (path db)) k' (cipher_compatibility db)))) \<and>
   (startswith (key db) (''x'' @ [CHR 0x27]) \<and> endswith (key db) [CHR 0x27] \<longrightarrow>
      key_formats (key db) =
        [''x'' @ [CHR 0x27] @ drop 2 (butlast (key db)) @ [CHR 0x27], key db,
         [CHR 0x22] @ key db @ [CHR 0x22], drop 2 (butlast (key db))]) \<and>
   (\<forall>H. key db = ''x'' @ [CHR 0x27] @ H @ [CHR 0x27] \<longrightarrow>
      key_formats (key db) = [key db, key db, [CHR 0x22] @ key db @ [CHR 0x22], H]) \<and>
   (\<not> (startswith (key db) (''x'' @ [CHR 0x27]) \<and> endswith (key db) [CHR 0x27]) \<longrightarrow>
      key_formats (key db) =
        [key db, [CHR 0x22] @ key db @ [CHR 0x22], ''x'' @ [CHR 0x27] @ key db @ [CHR 0x27]])"
proof -
  assume o: "db_openable (w (path db))"
  have a: "connect_attempts w db =
     attempts_until_accepted (w (path db)) (cipher_compatibility db) (key_formats (key db))"
    unfolding connect_attempts_def by (rule key_format_attempts_openable [OF o])
  have c: "connect_database w db =
     Inr (first_accepted (w (path db)) (cipher_compatibility db) (key_formats (key db)))"
    unfolding connect_database_def by (rule try_key_formats_openable [OF o])
  have n: "connect_database w db = Inr None \<longleftrightarrow>
      (\<forall>k \<in> set (key_formats (key db)). \<not> db_accepts (w (path db)) k (cipher_compatibility db))"
    unfolding c using first_accepted_None [of "w (path db)" "cipher_compatibility db" "key_formats (key db)"]
    by simp
  have s: "\<forall>c. connect_database w db = Inr (Some c) \<longrightarrow>
      c = db_tables (w (path db)) \<and>
      (\<exists>before k after. key_formats (key db) = before @ k # after \<and>
         db_accepts (w (path db)) k (cipher_compatibility db) \<and>
         (\<forall>k' \<in> set before. \<not> db_accepts (w (path db)) k' (cipher_compatibility db)))"
    unfolding c using first_accepted_Some [of "w (path db)" "cipher_compatibility db" "key_formats (key db)"]
    by simp
  have f1: "startswith (key db) (''x'' @ [CHR 0x27]) \<and> endswith (key db) [CHR 0x27] \<longrightarrow>
      key_formats (key db) =
        [''x'' @ [CHR 0x27] @ drop 2 (butlast (key db)) @ [CHR 0x27], key db,
         [CHR 0x22] @ key db @ [CHR 0x22], drop 2 (butlast (key db))]"
    by (simp add: key_formats_def Let_def)
  have f2: "\<forall>H. key db = ''x'' @ [CHR 0x27] @ H @ [CHR 0x27] \<longrightarrow>
      key_formats (key db) = [key db, key db, [CHR 0x22] @ key db @ [CHR 0x22], H]"
  proof (intro allI impI)
    fix H assume k: "key db = ''x'' @ [CHR 0x27] @ H @ [CHR 0x27]"
    have "startswith (key db) (''x'' @ [CHR 0x27])" unfolding k by (simp add: startswith_def)
    moreover have "endswith (key db) [CHR 0x27]" unfolding k by (simp add: endswith_def)
    moreover have "drop 2 (butlast (key db)) = H" unfolding k by (rule wrapped_key_hex)
    ultimately show "key_formats (key db) = [key db, key db, [CHR 0x22] @ key db @ [CHR 0x22], H]"
      using k by (simp add: key_formats_def Let_def)
  qed
  have f3: "\<not> (startswith (key db) (''x'' @ [CHR 0x27]) \<and> endswith (key db) [CHR 0x27]) \<longrightarrow>
      key_formats (key db) =
        [key db, [CHR 0x22] @ key db @ [CHR 0x22], ''x'' @ [CHR 0x27] @ key db @ [CHR 0x27]]"
    by (simp add: key_formats_def Let_def)
  show ?thesis
    by (intro conjI) (rule a, rule c, rule n, rule s, rule f1, rule f2, rule f3)
qed

theorem connect_database_first_success_witness:
  "db_openable quoted_key_file \<and>
   connect_attempts (\<lambda>p. quoted_key_file) example_db =
     [key example_db, key example_db, [CHR 0x22] @ key example_db @ [CHR 0x22]] \<and>
   connect_database (\<lambda>p. quoted_key_file) example_db = Inr (Some [(''Chat_100'', chat_100_table)]) \<and>
   key_formats (key example_db) =
     [key example_db, key example_db, [CHR 0x22] @ key example_db @ [CHR 0x22], ''ab12'']"
proof -
  have o: "db_openable ((\<lambda>p. quoted_key_file) (path example_db))"
    by (simp add: quoted_key_file_def)
  have k: "key example_db = ''x'' @ [CHR 0x27] @ ''ab12'' @ [CHR 0x27]"
    by (simp add: example_db_def)
  note t = connect_database_first_success [of "\<lambda>p. quoted_key_file" example_db, OF o]
  note t1 = t [THEN conjunct1]
  note t2 = t [THEN conjunct2, THEN conjunct1]
  note t6 = t [THEN conjunct2, THEN conjunct2, THEN conjunct2, THEN conjunct2, THEN conjunct2,
      THEN conjunct1]
  from t6 have "key example_db = ''x'' @ [CHR 0x27] @ ''ab12'' @ [CHR 0x27] \<longrightarrow>
      key_formats (key example_db) =
        [key example_db, key example_db, [CHR 0x22] @ key example_db @ [CHR 0x22], ''ab12'']"
    by (rule spec)
  with k have f: "key_formats (key example_db) =
     [key example_db, key example_db, [CHR 0x22] @ key example_db @ [CHR 0x22], ''ab12'']"
    by (rule rev_mp)
  have r: "\<not> db_accepts quoted_key_file (key example_db) (cipher_compatibility example_db)"
    by (simp add: quoted_key_file_def example_db_def)
  have q: "db_accepts quoted_key_file ([CHR 0x22] @ key example_db @ [CHR 0x22])
      (cipher_compatibility example_db)"
    by (simp add: quoted_key_file_def example_db_def)
  have c1: "connect_attempts (\<lambda>p. quoted_key_file) example_db =
     [key example_db, key example_db, [CHR 0x22] @ key example_db @ [CHR 0x22]]"
    using t1 r q unfolding f by simp
  have c2: "connect_database (\<lambda>p. quoted_key_file) example_db =
     Inr (Some (db_tables quoted_key_file))"
    using t2 r q unfolding f by simp
  have c3: "db_tables quoted_key_file = [(''Chat_100'', chat_100_table)]"
    by (simp add: quoted_key_file_def)
  from o c1 c2 c3 f show ?thesis by simp
qed

section \<open>Claim C6: \<^verbatim>\<open>_convert_timestamp\<close>\<close>

lemma bit_length_le: "n < 2 ^ k \<Longrightarrow> bit_length n \<le> int k"
proof (induction k arbitrary: n)
  case 0
  then have "n \<le> 0" by simp
  then show ?case by (subst bit_length.simps) simp
next
  case (Suc k)
  show ?case
  proof (cases "n \<le> 0")
    case True
    then show ?thesis by (subst bit_length.simps) simp
  next
    case False
    from Suc.prems have "n div 2 < 2 ^ k" by simp
    then have "bit_length (n div 2) \<le> int k" by (rule Suc.IH)
    with False show ?thesis by (subst bit_length.simps) simp
  qed
qed

lemma round_half_even_int: "round_half_even (of_int n) = n"
  by (simp add: round_half_even_def Let_def)

lemma to_double_int:
  assumes p: "0 < n" and b: "n < 2 ^ 53"
  shows "to_double (of_int n) = of_int n"
proof -
  define e where "e = ilog2 \<bar>of_int n\<bar> - 52"
  define k where "k = nat (- e)"
  have a: "\<bar>of_int n :: rat\<bar> = of_int n" using p by simp
  have o: "(1::rat) \<le> of_int n" using p by simp
  have "ilog2 (of_int n) = bit_length n - 1" using o by (simp add: ilog2_def)
  moreover have "bit_length n \<le> 53" using bit_length_le [OF b] by simp
  ultimately have e0: "e \<le> 0" unfolding e_def a by simp
  have pw: "pow2 e = 1 / 2 ^ k"
  proof (cases "e = 0")
    case True
    then show ?thesis by (simp add: pow2_def k_def)
  next
    case False
    with e0 have "\<not> 0 \<le> e" by simp
    then show ?thesis by (simp add: pow2_def k_def)
  qed
  have q: "\<bar>of_int n :: rat\<bar> / pow2 e = of_int (n * 2 ^ k)"
    unfolding a pw by simp
  have m: "round_half_even (\<bar>of_int n :: rat\<bar> / pow2 e) = n * 2 ^ k"
    unfolding q by (rule round_half_even_int)
  have s: "sgn (of_int n :: rat) = 1" using p by simp
  have z: "(of_int n :: rat) \<noteq> 0" using p by simp
  have "to_double (of_int n) = sgn (of_int n) * of_int (n * 2 ^ k) * pow2 e"
    using z m unfolding to_double_def e_def [symmetric] by (simp add: Let_def)
  also have "\<dots> = of_int n" unfolding s pw by simp
  finally show ?thesis .
qed

lemma fromtimestamp_float_int: "fromtimestamp_float env (of_int n) = localtime env n 0"
  by (simp add: fromtimestamp_float_def to_double_def round_half_even_def Let_def)

lemma convert_timestamp_seconds:
  "1000000000 < t \<Longrightarrow> t \<le> 1000000000000 \<Longrightarrow>
   convert_timestamp env (VInt t) = map_option isoformat (localtime env t 0)"
  by (simp add: convert_timestamp_def fromtimestamp_int_def)

lemma convert_timestamp_whole_seconds:
  assumes l: "1000000000 < n" and u: "n \<le> 1000000000000"
  shows "convert_timestamp env (VInt (1000 * n)) = convert_timestamp env (VInt n)"
proof -
  have g: "1000000000000 < 1000 * n" using l by simp
  have "0 < n" using l by simp
  moreover have "n < 2 ^ 53" using u by simp
  ultimately have d: "to_double (of_int n) = of_int n" by (rule to_double_int)
  have q: "(of_int (1000 * n) :: rat) / 1000 = of_int n" by simp
  have "convert_timestamp env (VInt (1000 * n)) =
      map_option isoformat (fromtimestamp_float env (to_double (of_int (1000 * n) / 1000)))"
    using g by (simp add: convert_timestamp_def)
  also have "\<dots> = map_option isoformat (localtime env n 0)"
    unfolding q d fromtimestamp_float_int ..
  also have "\<dots> = convert_timestamp env (VInt n)"
    using convert_timestamp_seconds [OF l u] by simp
  finally show ?thesis .
qed

lemma localtime_None:
  "localtime env n us = None \<longleftrightarrow>
   \<not> (1 \<le> fst (civil_from_days ((n + utcoffset env n) div 86400)) \<and>
      fst (civil_from_days ((n + utcoffset env n) div 86400)) \<le> 9999)"
  by (simp add: localtime_def Let_def split: prod.splits)

lemma civil_2023:
  "civil_from_days 19674 = (2023, 11, 13)"
  "civil_from_days 19675 = (2023, 11, 14)"
  "civil_from_days 19676 = (2023, 11, 15)"
  by code_simp+

lemma localtime_2023:
  assumes "\<bar>utcoffset env 1700000000\<bar> < 86400"
  shows "\<exists>dt. localtime env 1700000000 0 = Some dt \<and> year dt = 2023"
proof -
  define d where "d = (1700000000 + utcoffset env 1700000000) div 86400"
  define a where "a = 1700000000 + utcoffset env 1700000000"
  have "d * 86400 + a mod 86400 = a" unfolding d_def a_def by simp
  moreover have "0 \<le> a mod 86400" and "a mod 86400 < 86400" by simp_all
  moreover have "1700000000 - 86400 < a" and "a < 1700000000 + 86400"
    using assms unfolding a_def by linarith+
  ultimately have "19674 \<le> d \<and> d \<le> 19676" by linarith
  then consider "d = 19674" | "d = 19675" | "d = 19676" by linarith
  then show ?thesis
  proof cases
    case 1
    then show ?thesis
      using civil_2023(1) unfolding d_def by (simp add: localtime_def Let_def)
  next
    case 2
    then show ?thesis
      using civil_2023(2) unfolding d_def by (simp add: localtime_def Let_def)
  next
    case 3
    then show ?thesis
      using civil_2023(3) unfolding d_def by (simp add: localtime_def Let_def)
  qed
qed

lemma zfill_2023: "zfill 4 2023 = ''2023''"
  by code_simp

lemma isoformat_2023: "year dt = 2023 \<Longrightarrow> take 5 (isoformat dt) = ''2023-''"
  by (simp add: isoformat_def zfill_2023)

text \<open>
  Claim C6, as stated, says that every numeric value greater than 1e9 and at most 1e12 gives
  the ISO-8601 string of the value read as seconds since the epoch, and every value
  greater than 1e12 the string of the value read as milliseconds. The value 1e12 itself is
  read as seconds; that instant lies in the year 33658, \<^verbatim>\<open>datetime.fromtimestamp\<close> raises, and
  the code returns \<^verbatim>\<open>None\<close>. The same happens for the millisecond value 3e14.
\<close>

theorem year_out_of_range_counterexample:
  "convert_timestamp example_env (VInt 1000000000000) = None \<and>
   convert_timestamp example_env (VReal 1000000000000) = None \<and>
   convert_timestamp example_env (VInt 300000000000000) = None \<and>
   fst (civil_from_days (1000000000000 div 86400)) = 33658"
  by code_simp

text \<open>
  Claim C6, amended: a numeric value of 1e9 or less gives \<^verbatim>\<open>None\<close>; a value greater than 1e9
  and at most 1e12 is read as seconds since the epoch and a value greater than 1e12 as
  milliseconds (divided by 1000 in binary64), and the result is the ISO-8601 string of the
  local date and time of that instant if its year is in \<^verbatim>\<open>1..9999\<close> and \<^verbatim>\<open>None\<close> otherwise.
  A millisecond value \<open>1000 * s\<close> with \<open>s\<close> greater than 1e9 and at most 1e12 gives the same
  result as the second value \<open>s\<close>. In every time zone (offset below one day) 1700000000
  gives a string that starts with \<^verbatim>\<open>2023-\<close> and 1700000000000 gives the same string; 500
  gives \<^verbatim>\<open>None\<close>. A text that parses as ISO-8601 is normalized and any other text is
  returned unchanged.
\<close>

theorem convert_timestamp_cases:
  "(\<forall>t. t \<le> 1000000000 \<longrightarrow> convert_timestamp env (VInt t) = None) \<and>
   (\<forall>x. x \<le> 1000000000 \<longrightarrow> convert_timestamp env (VReal x) = None) \<and>
   (\<forall>t. 1000000000 < t \<and> t \<le> 1000000000000 \<longrightarrow>
      convert_timestamp env (VInt t) = map_option isoformat (localtime env t 0)) \<and>
   (\<forall>x. 1000000000 < x \<and> x \<le> 1000000000000 \<longrightarrow>
      convert_timestamp env (VReal x) = map_option isoformat (fromtimestamp_float env x)) \<and>
   (\<forall>t. 1000000000000 < t \<longrightarrow>
      convert_timestamp env (VInt t) =
        map_option isoformat (fromtimestamp_float env (to_double (of_int t / 1000)))) \<and>
   (\<forall>x. 1000000000000 < x \<longrightarrow>
      convert_timestamp env (VReal x) =
        map_option isoformat (fromtimestamp_float env (to_double (x / 1000)))) \<and>
   (\<forall>n. 1000000000 < n \<and> n \<le> 1000000000000 \<longrightarrow>
      convert_timestamp env (VInt (1000 * n)) = convert_timestamp env (VInt n)) \<and>
   (\<forall>n us. localtime env n us = None \<longleftrightarrow>
      \<not> (1 \<le> fst (civil_from_days ((n + utcoffset env n) div 86400)) \<and>
         fst (civil_from_days ((n + utcoffset env n) div 86400)) \<le> 9999)) \<and>
   convert_timestamp env (VInt 500) = None \<and>
   (\<bar>utcoffset env 1700000000\<bar> < 86400 \<longrightarrow>
      (\<exists>dt. year dt = 2023 \<and> take 5 (isoformat dt) = ''2023-'' \<and>
         convert_timestamp env (VInt 1700000000) = Some (isoformat dt) \<and>
         convert_timestamp env (VInt 1700000000000) = Some (isoformat dt))) \<and>
   (\<forall>txt normalized. fromisoformat env txt = Some normalized \<longrightarrow>
      convert_timestamp env (VText txt) = Some normalized) \<and>
   (\<forall>txt. fromisoformat env txt = None \<longrightarrow> convert_timestamp env (VText txt) = Some txt)"
proof -
  have c1: "\<forall>t. t \<le> 1000000000 \<longrightarrow> convert_timestamp env (VInt t) = None"
    by (simp add: convert_timestamp_def)
  have c2: "\<forall>x. x \<le> 1000000000 \<longrightarrow> convert_timestamp env (VReal x) = None"
    by (simp add: convert_timestamp_def)
  have c3: "\<forall>t. 1000000000 < t \<and> t \<le> 1000000000000 \<longrightarrow>
      convert_timestamp env (VInt t) = map_option isoformat (localtime env t 0)"
    by (simp add: convert_timestamp_seconds)
  have c4: "\<forall>x. 1000000000 < x \<and> x \<le> 1000000000000 \<longrightarrow>
      convert_timestamp env (VReal x) = map_option isoformat (fromtimestamp_float env x)"
    by (simp add: convert_timestamp_def)
  have c5: "\<forall>t. 1000000000000 < t \<longrightarrow>
      convert_timestamp env (VInt t) =
        map_option isoformat (fromtimestamp_float env (to_double (of_int t / 1000)))"
    by (simp add: convert_timestamp_def)
  have c6: "\<forall>x. 1000000000000 < x \<longrightarrow>
      convert_timestamp env (VReal x) =
        map_option isoformat (fromtimestamp_float env (to_double (x / 1000)))"
    by (simp add: convert_timestamp_def)
  have c7: "\<forall>n. 1000000000 < n \<and> n \<le> 1000000000000 \<longrightarrow>
      convert_timestamp env (VInt (1000 * n)) = convert_timestamp env (VInt n)"
    by (simp add: convert_timestamp_whole_seconds)
  have c8: "\<forall>n us. localtime env n us = None \<longleftrightarrow>
      \<not> (1 \<le> fst (civil_from_days ((n + utcoffset env n) div 86400)) \<and>
         fst (civil_from_days ((n + utcoffset env n) div 86400)) \<le> 9999)"
    by (intro allI) (rule localtime_None)
  have c9: "convert_timestamp env (VInt 500) = None"
    by (simp add: convert_timestamp_def)
  have c10: "\<bar>utcoffset env 1700000000\<bar> < 86400 \<longrightarrow>
      (\<exists>dt. year dt = 2023 \<and> take 5 (isoformat dt) = ''2023-'' \<and>
         convert_timestamp env (VInt 1700000000) = Some (isoformat dt) \<and>
         convert_timestamp env (VInt 1700000000000) = Some (isoformat dt))"
  proof
    assume "\<bar>utcoffset env 1700000000\<bar> < 86400"
    then obtain dt where l: "localtime env 1700000000 0 = Some dt" and y: "year dt = 2023"
      using localtime_2023 by blast
    have s: "convert_timestamp env (VInt 1700000000) = Some (isoformat dt)"
      using convert_timestamp_seconds [of 1700000000 env] l by simp
    have "convert_timestamp env (VInt (1000 * 1700000000)) =
        convert_timestamp env (VInt 1700000000)"
      by (rule convert_timestamp_whole_seconds) simp_all
    then have m: "convert_timestamp env (VInt 1700000000000) = Some (isoformat dt)"
      using s by simp
    from y have "take 5 (isoformat dt) = ''2023-''" by (rule isoformat_2023)
    with y s m show "\<exists>dt. year dt = 2023 \<and> take 5 (isoformat dt) = ''2023-'' \<and>
         convert_timestamp env (VInt 1700000000) = Some (isoformat dt) \<and>
         convert_timestamp env (VInt 1700000000000) = Some (isoformat dt)"
      by blast
  qed
  have c11: "\<forall>txt normalized. fromisoformat env txt = Some normalized \<longrightarrow>
      convert_timestamp env (VText txt) = Some normalized"
    by (simp add: convert_timestamp_def)
  have c12: "\<forall>txt. fromisoformat env txt = None \<longrightarrow>
      convert_timestamp env (VText txt) = Some txt"
    by (simp add: convert_timestamp_def)
  show ?thesis
    by (intro conjI)
      (rule c1, rule c2, rule c3, rule c4, rule c5, rule c6, rule c7, rule c8, rule c9,
       rule c10, rule c11, rule c12)
qed

theorem convert_timestamp_cases_witness:
  "\<bar>utcoffset iso_env 1700000000\<bar> < 86400 \<and>
   convert_timestamp iso_env (VInt 1700000000) = Some ''2023-11-14T22:13:20'' \<and>
   convert_timestamp iso_env (VInt 1700000000000) = Some ''2023-11-14T22:13:20'' \<and>
   convert_timestamp iso_env (VInt 1000000000) = None \<and>
   convert_timestamp iso_env (VReal 1000000000) = None \<and>
   convert_timestamp iso_env (VInt 500) = None \<and>
   fromisoformat iso_env ''2023-11-14 22:13:20'' = Some ''2023-11-14T22:13:20'' \<and>
   convert_timestamp iso_env (VText ''2023-11-14 22:13:20'') = Some ''2023-11-14T22:13:20'' \<and>
   fromisoformat iso_env ''yesterday'' = None \<and>
   convert_timestamp iso_env (VText ''yesterday'') = Some ''yesterday''"
proof -
  note r1 = convert_timestamp_cases [of iso_env]
  note r2 = r1 [THEN conjunct2]
  note r3 = r2 [THEN conjunct2]
  note r7 = r3 [THEN conjunct2, THEN conjunct2, THEN conjunct2, THEN conjunct2]
  note r9 = r7 [THEN conjunct2, THEN conjunct2]
  note r11 = r9 [THEN conjunct2, THEN conjunct2]
  note r12 = r11 [THEN conjunct2]
  have u: "\<bar>utcoffset iso_env 1700000000\<bar> < 86400"
    by (simp add: iso_env_def example_env_def)
  have "(1000000000::int) \<le> 1000000000" by simp
  with r1 [THEN conjunct1, THEN spec, of 1000000000]
  have a1: "convert_timestamp iso_env (VInt 1000000000) = None" by (rule mp)
  have "(1000000000::rat) \<le> 1000000000" by simp
  with r2 [THEN conjunct1, THEN spec, of 1000000000]
  have a2: "convert_timestamp iso_env (VReal 1000000000) = None" by (rule mp)
  have l: "localtime iso_env 1700000000 0 =
      Some \<lparr>year = 2023, month = 11, day = 14, hour = 22, minute = 13, second = 20,
        microsecond = 0\<rparr>"
    by code_simp
  have i: "isoformat \<lparr>year = 2023, month = 11, day = 14, hour = 22, minute = 13, second = 20,
        microsecond = 0\<rparr> = ''2023-11-14T22:13:20''"
    by code_simp
  have "(1000000000::int) < 1700000000 \<and> (1700000000::int) \<le> 1000000000000" by simp
  with r3 [THEN conjunct1, THEN spec, of 1700000000]
  have "convert_timestamp iso_env (VInt 1700000000) =
      map_option isoformat (localtime iso_env 1700000000 0)" by (rule mp)
  then have a3: "convert_timestamp iso_env (VInt 1700000000) = Some ''2023-11-14T22:13:20''"
    unfolding l by (simp add: i)
  have "(1000000000::int) < 1700000000 \<and> (1700000000::int) \<le> 1000000000000" by simp
  with r7 [THEN conjunct1, THEN spec, of 1700000000]
  have "convert_timestamp iso_env (VInt (1000 * 1700000000)) =
      convert_timestamp iso_env (VInt 1700000000)" by (rule mp)
  then have a7: "convert_timestamp iso_env (VInt 1700000000000) = Some ''2023-11-14T22:13:20''"
    using a3 by simp
  note a9 = r9 [THEN conjunct1]
  have f1: "fromisoformat iso_env ''2023-11-14 22:13:20'' = Some ''2023-11-14T22:13:20''"
    by (simp add: iso_env_def)
  with r11 [THEN conjunct1, THEN spec, THEN spec,
      of "''2023-11-14 22:13:20''" "''2023-11-14T22:13:20''"]
  have a11: "convert_timestamp iso_env (VText ''2023-11-14 22:13:20'') =
      Some ''2023-11-14T22:13:20''" by (rule mp)
  have f2: "fromisoformat iso_env ''yesterday'' = None"
    by (simp add: iso_env_def)
  with r12 [THEN spec, of "''yesterday''"]
  have a12: "convert_timestamp iso_env (VText ''yesterday'') = Some ''yesterday''" by (rule mp)
  show ?thesis
    by (intro conjI) (rule u, rule a3, rule a7, rule a1, rule a2, rule a9, rule f1, rule a11,
      rule f2, rule a12)
qed

end
